theory Spec2Isabelle
  imports Main "HOL-Library.Word"
begin

unbundle bit_operations_syntax

section \<open>AppFuse: the FUSE request loop of MtpDocumentsProvider\<close>

text \<open>
  A shallow embedding of \<^verbatim>\<open>packages/MtpDocumentsProvider/jni/com_android_mtp_AppFuse.cpp\<close>.
  Fixed-width C integers are words: \<^verbatim>\<open>uint32_t\<close> and \<^verbatim>\<open>int\<close> are \<open>32 word\<close>,
  \<^verbatim>\<open>uint64_t\<close> and \<^verbatim>\<open>int64_t\<close> are \<open>64 word\<close>; a signed reading is taken with
  \<open>sint\<close> where the source compares or converts a signed value. \<^verbatim>\<open>size_t\<close> values
  (buffer and structure sizes) are natural numbers, and every conversion of one into a
  fixed-width field is written out with \<open>of_nat\<close>.
\<close>

type_synonym u8 = "8 word"
type_synonym u16 = "16 word"
type_synonym u32 = "32 word"
type_synonym u64 = "64 word"
type_synonym cint = "32 word"
type_synonym int64_t = "64 word"

subsection \<open>Constants\<close>

text \<open>The three constants the source file defines itself.\<close>

definition MAX_WRITE :: nat where
  "MAX_WRITE = 256 * 1024"

definition MAX_READ :: nat where
  "MAX_READ = 128 * 1024"

definition NUM_MAX_HANDLES :: nat where
  "NUM_MAX_HANDLES = 1024"

text \<open>
  The opcode numbers, capability bits, file-type bits and error numbers come from
  \<^verbatim>\<open>linux/fuse.h\<close>, \<^verbatim>\<open>sys/stat.h\<close> and \<^verbatim>\<open>errno.h\<close>, which the source includes.
  They are fixed by the Linux ABI and are written here with their Linux values.
\<close>

definition FUSE_LOOKUP :: u32 where "FUSE_LOOKUP = 1"
definition FUSE_FORGET :: u32 where "FUSE_FORGET = 2"
definition FUSE_GETATTR :: u32 where "FUSE_GETATTR = 3"
definition FUSE_OPEN :: u32 where "FUSE_OPEN = 14"
definition FUSE_READ :: u32 where "FUSE_READ = 15"
definition FUSE_RELEASE :: u32 where "FUSE_RELEASE = 18"
definition FUSE_FLUSH :: u32 where "FUSE_FLUSH = 25"
definition FUSE_INIT :: u32 where "FUSE_INIT = 26"

definition FUSE_ATOMIC_O_TRUNC :: u32 where "FUSE_ATOMIC_O_TRUNC = push_bit 3 1"
definition FUSE_BIG_WRITES :: u32 where "FUSE_BIG_WRITES = push_bit 5 1"

text \<open>Octal 0100000, 0040000 and (below) 0777 are written in hexadecimal.\<close>

definition S_IFREG :: u32 where "S_IFREG = 0x8000"
definition S_IFDIR :: u32 where "S_IFDIR = 0x4000"

definition ENOENT :: cint where "ENOENT = 2"
definition EIO :: cint where "EIO = 5"
definition EBADF :: cint where "EBADF = 9"
definition ENODEV :: cint where "ENODEV = 19"
definition EINVAL :: cint where "EINVAL = 22"
definition EMFILE :: cint where "EMFILE = 24"
definition ENOSYS :: cint where "ENOSYS = 38"

text \<open>
  What the build fixes is a parameter of the model. From the version of
  \<^verbatim>\<open>linux/fuse.h\<close> the file is compiled against: the protocol major version, the sizes
  \<^verbatim>\<open>sizeof\<close> yields for the wire structures, and whether the macro
  \<^verbatim>\<open>FUSE_COMPAT_22_INIT_OUT_SIZE\<close> is defined (\<open>None\<close> when it is not). From the C
  library: what \<^verbatim>\<open>atoi\<close> returns for a string whose value does not fit an \<^verbatim>\<open>int\<close>,
  which the C standard leaves open.
\<close>

record platform =
  FUSE_KERNEL_VERSION :: u32
  FUSE_COMPAT_22_INIT_OUT_SIZE :: "nat option"
  sizeof_fuse_in_header :: nat
  sizeof_fuse_out_header :: nat
  sizeof_fuse_init_out :: nat
  sizeof_fuse_entry_out :: nat
  sizeof_fuse_attr_out :: nat
  sizeof_fuse_open_out :: nat
  atoi_out_of_range :: "string \<Rightarrow> cint"

subsection \<open>Wire structures\<close>

text \<open>
  Only the fields the source reads or writes are kept. Every other field of an output
  structure is zero after \<^verbatim>\<open>prepare_buffer\<close> and stays so.
\<close>

record fuse_out_header =
  len :: u32
  error :: cint
  unique :: u64

record fuse_in_header =
  len :: u32
  opcode :: u32
  unique :: u64
  nodeid :: u64

record fuse_init_out =
  major :: u32
  minor :: u32
  max_readahead :: u32
  flags :: u32
  max_background :: u16
  congestion_threshold :: u16
  max_write :: u32

record fuse_init_in =
  major :: u32
  minor :: u32
  max_readahead :: u32
  flags :: u32

record fuse_attr =
  ino :: u64
  size_v :: u64
  mode :: u32

record fuse_entry_out =
  nodeid :: u64
  entry_valid :: u64
  attr_valid :: u64
  attr :: fuse_attr

record fuse_attr_out =
  attr_valid :: u64
  attr :: fuse_attr

record fuse_open_out =
  fh :: u64

record fuse_read_in =
  fh :: u64
  offset :: u64
  size_v :: u32

record fuse_release_in =
  fh :: u64

text \<open>
  \<^verbatim>\<open>FuseRequest\<close>: the header and the data region behind it. \<^verbatim>\<open>invoke_handler\<close>
  casts the data region to the input type of the handler it calls, so the request
  carries one typed view of the region for each such type; \<open>name\<close> is the region read
  as a NUL-terminated C string.
\<close>

record FuseRequest =
  header :: fuse_in_header
  name :: string
  init_in :: fuse_init_in
  read_in :: fuse_read_in
  release_in :: fuse_release_in

text \<open>
  What a \<^verbatim>\<open>FuseResponse<T>\<close> leaves in the shared buffer: the typed structure a
  handler wrote, the bytes copied by READ, or nothing (the input data is still there).
  \<open>NullData\<close> is the \<^verbatim>\<open>NULL\<close> pointer the dispatcher passes for an unknown opcode.
\<close>

datatype reply_data =
    NullData
  | Unwritten
  | EntryOut fuse_entry_out
  | InitOut fuse_init_out
  | AttrOut fuse_attr_out
  | OpenOut fuse_open_out
  | Bytes "u8 list"

record FuseResponse =
  response_size :: nat
  buffer :: reply_data

definition new_response :: FuseResponse where
  "new_response = \<lparr>response_size = 0, buffer = Unwritten\<rparr>"

subsection \<open>The content provider behind JNI\<close>

text \<open>
  The two Java methods \<^verbatim>\<open>getFileSize(I)J\<close> and \<^verbatim>\<open>getObjectBytes(IJI)[B\<close>. A byte
  array reference may be null; \<^verbatim>\<open>ScopedByteArrayRO::get\<close> on a non-null array may
  still yield a null element pointer, which \<open>pinned\<close> records.
\<close>

record jbyteArray =
  elements :: "u8 list"
  pinned :: bool

record provider =
  getFileSize :: "cint \<Rightarrow> int64_t"
  getObjectBytes :: "cint \<Rightarrow> u64 \<Rightarrow> u32 \<Rightarrow> jbyteArray option"

text \<open>Every call into the provider is logged, in order, with its arguments.\<close>

datatype upcall =
    GetFileSize cint
  | GetObjectBytes cint u64 u32

subsection \<open>Session state\<close>

record AppFuse =
  handles :: "u32 \<rightharpoonup> u64"
  handle_counter :: u32

definition new_AppFuse :: AppFuse where
  "new_AppFuse = \<lparr>handles = Map.empty, handle_counter = 0\<rparr>"

subsection \<open>The C library's atoi\<close>

text \<open>
  \<^verbatim>\<open>atoi\<close> skips white space, reads an optional sign and then decimal digits up to
  the first character that is not a digit; without digits the result is 0. For a value
  outside the range of \<^verbatim>\<open>int\<close> the result is the platform's.
\<close>

definition isspace :: "char \<Rightarrow> bool" where
  "isspace c = (c \<in> set [CHR '' '', CHR 0x09, CHR 0x0A, CHR 0x0B, CHR 0x0C, CHR 0x0D])"

definition isdigit :: "char \<Rightarrow> bool" where
  "isdigit c = (48 \<le> (of_char c :: nat) \<and> (of_char c :: nat) \<le> 57)"

fun digits_value :: "int \<Rightarrow> string \<Rightarrow> int" where
  "digits_value acc [] = acc"
| "digits_value acc (c # cs) =
     (if isdigit c then digits_value (acc * 10 + (of_char c - 48)) cs else acc)"

fun signed_value :: "string \<Rightarrow> int" where
  "signed_value [] = 0"
| "signed_value (c # cs) =
     (if c = CHR ''-'' then - digits_value 0 cs
      else if c = CHR ''+'' then digits_value 0 cs
      else digits_value 0 (c # cs))"

definition atoi :: "platform \<Rightarrow> string \<Rightarrow> cint" where
  "atoi K s =
     (let v = signed_value (dropWhile isspace s)
      in if - (2 ^ 31) \<le> v \<and> v < 2 ^ 31 then word_of_int v else atoi_out_of_range K s)"

text \<open>
  The values of a 64-bit Android build against the 7.23 header, used for concrete runs.
  Its \<^verbatim>\<open>atoi\<close> is \<^verbatim>\<open>(int) strtol(s, NULL, 10)\<close>: the value is clamped to the range of a
  64-bit \<^verbatim>\<open>long\<close> and then cut to its low 32 bits.
\<close>

definition android_lp64 :: platform where
  "android_lp64 =
     \<lparr>FUSE_KERNEL_VERSION = 7, FUSE_COMPAT_22_INIT_OUT_SIZE = Some 24,
      sizeof_fuse_in_header = 40, sizeof_fuse_out_header = 16,
      sizeof_fuse_init_out = 64, sizeof_fuse_entry_out = 128,
      sizeof_fuse_attr_out = 104, sizeof_fuse_open_out = 16,
      atoi_out_of_range =
        (\<lambda>s. word_of_int
               (max (- (2 ^ 63)) (min (2 ^ 63 - 1) (signed_value (dropWhile isspace s)))))\<rparr>"

subsection \<open>Replies\<close>

text \<open>
  \<^verbatim>\<open>fuse_reply\<close> ends in one \<^verbatim>\<open>writev\<close>. The model returns that call: the header, the
  two entries of \<^verbatim>\<open>vec\<close> and the segment count handed to \<^verbatim>\<open>writev\<close>. The parameter
  \<^verbatim>\<open>unique\<close> has type \<^verbatim>\<open>int\<close>; storing it into the 64-bit header field sign-extends it.
\<close>

record writev_call =
  hdr :: fuse_out_header
  vec0_len :: nat
  vec1_base :: reply_data
  vec1_len :: nat
  iovcnt :: nat

definition fuse_reply :: "platform \<Rightarrow> cint \<Rightarrow> cint \<Rightarrow> reply_data \<Rightarrow> nat \<Rightarrow> writev_call" where
  "fuse_reply K unique_arg reply_code reply_data reply_size0 =
     (let reply_size = (if reply_code \<noteq> 0 then 0 else reply_size0);
          out_hdr = \<lparr>fuse_out_header.len = of_nat (reply_size + sizeof_fuse_out_header K),
               error = reply_code,
               fuse_out_header.unique = scast unique_arg\<rparr>
      in \<lparr>hdr = out_hdr, vec0_len = sizeof_fuse_out_header K,
          vec1_base = reply_data, vec1_len = reply_size,
          iovcnt = (if reply_size \<noteq> 0 then 2 else 1)\<rparr>)"

subsection \<open>Provider adapter\<close>

definition get_file_size :: "provider \<Rightarrow> cint \<Rightarrow> int64_t \<times> upcall list" where
  "get_file_size P inode = (getFileSize P inode, [GetFileSize inode])"

text \<open>
  \<^verbatim>\<open>get_object_bytes\<close>: the subtraction is done in \<^verbatim>\<open>uint64_t\<close> (the \<^verbatim>\<open>int64_t\<close> file
  size is converted to unsigned), so it wraps. The result is \<open>- 1\<close> on failure and the
  number of bytes copied otherwise, together with the bytes copied into the buffer.
\<close>

definition get_object_bytes ::
  "provider \<Rightarrow> cint \<Rightarrow> u64 \<Rightarrow> u32 \<Rightarrow> (int64_t \<times> reply_data) \<times> upcall list" where
  "get_object_bytes P inode offs sz =
     (let (fsize, ups) = get_file_size P inode;
          read_size = (ucast (min (ucast sz :: u64) (fsize - offs)) :: u32);
          array = getObjectBytes P inode offs read_size;
          ups' = ups @ [GetObjectBytes inode offs read_size]
      in case array of
           None \<Rightarrow> ((- 1, Unwritten), ups')
         | Some bytes \<Rightarrow>
             if length (elements bytes) \<noteq> unat read_size \<or> \<not> pinned bytes
             then ((- 1, Unwritten), ups')
             else ((ucast read_size, Bytes (take (unat read_size) (elements bytes))), ups'))"

subsection \<open>Handlers\<close>

text \<open>
  A handler returns its reply code, the \<^verbatim>\<open>FuseResponse\<close> as it leaves it, and the
  provider calls it made. OPEN and RELEASE also return the updated session.
\<close>

type_synonym handled = "cint \<times> FuseResponse \<times> upcall list"

definition handle_fuse_lookup :: "platform \<Rightarrow> provider \<Rightarrow> fuse_in_header \<Rightarrow> string \<Rightarrow> handled" where
  "handle_fuse_lookup K P h nm =
     (if fuse_in_header.nodeid h \<noteq> 1 then (- ENOENT, new_response, [])
      else let n = atoi K nm in
        if n = 0 then (- ENOENT, new_response, [])
        else let (sz, ups) = get_file_size P n in
          if sint sz < 0 then (- ENOENT, new_response, ups)
          else (0,
                \<lparr>response_size = sizeof_fuse_entry_out K,
                 buffer = EntryOut
                   \<lparr>fuse_entry_out.nodeid = scast n, entry_valid = 10,
                    fuse_entry_out.attr_valid = 10,
                    fuse_entry_out.attr = \<lparr>ino = scast n, fuse_attr.size_v = sz,
                                           mode = S_IFREG OR 0x1FF\<rparr>\<rparr>\<rparr>,
                ups))"

definition handle_fuse_init :: "platform \<Rightarrow> fuse_in_header \<Rightarrow> fuse_init_in \<Rightarrow> handled" where
  "handle_fuse_init K h inp =
     (if fuse_init_in.major inp \<noteq> FUSE_KERNEL_VERSION K \<or> fuse_init_in.minor inp < 6
      then (- 1, new_response, [])
      else let minor = fuse_init_in.minor inp;
               max_readahead = fuse_init_in.max_readahead inp;
               init_out_size =
                 (case FUSE_COMPAT_22_INIT_OUT_SIZE K of
                    None \<Rightarrow> sizeof_fuse_init_out K
                  | Some compat_size \<Rightarrow> if minor \<le> 22 then compat_size else sizeof_fuse_init_out K)
           in (0,
               \<lparr>response_size = init_out_size,
                buffer = InitOut
                  \<lparr>fuse_init_out.major = FUSE_KERNEL_VERSION K,
                   fuse_init_out.minor = min minor 15,
                   fuse_init_out.max_readahead = max_readahead,
                   fuse_init_out.flags = FUSE_ATOMIC_O_TRUNC OR FUSE_BIG_WRITES,
                   max_background = 32,
                   congestion_threshold = 32,
                   max_write = of_nat MAX_WRITE\<rparr>\<rparr>,
               []))"

text \<open>
  GETATTR writes into the buffer before it asks the provider, so on the error path the
  response already has the size of \<^verbatim>\<open>fuse_attr_out\<close> and mode and size still zero.
  \<^verbatim>\<open>get_file_size\<close> takes an \<^verbatim>\<open>int\<close>: the 64-bit node id is cut to its low 32 bits.
\<close>

definition handle_fuse_getattr :: "platform \<Rightarrow> provider \<Rightarrow> fuse_in_header \<Rightarrow> handled" where
  "handle_fuse_getattr K P h =
     (let out0 = \<lparr>ino = fuse_in_header.nodeid h, fuse_attr.size_v = 0, mode = 0\<rparr> in
      if fuse_in_header.nodeid h = 1
      then (0,
            \<lparr>response_size = sizeof_fuse_attr_out K,
             buffer = AttrOut \<lparr>fuse_attr_out.attr_valid = 10,
                                fuse_attr_out.attr = out0\<lparr>mode := S_IFDIR OR 0x1FF, fuse_attr.size_v := 0\<rparr>\<rparr>\<rparr>,
            [])
      else let (sz, ups) = get_file_size P (ucast (fuse_in_header.nodeid h)) in
        if sint sz < 0
        then (- ENOENT,
              \<lparr>response_size = sizeof_fuse_attr_out K,
               buffer = AttrOut \<lparr>fuse_attr_out.attr_valid = 10, fuse_attr_out.attr = out0\<rparr>\<rparr>,
              ups)
        else (0,
              \<lparr>response_size = sizeof_fuse_attr_out K,
               buffer = AttrOut \<lparr>fuse_attr_out.attr_valid = 10,
                                  fuse_attr_out.attr = out0\<lparr>mode := S_IFREG OR 0x1FF, fuse_attr.size_v := sz\<rparr>\<rparr>\<rparr>,
              ups))"

text \<open>
  The \<^verbatim>\<open>do ... while\<close> of OPEN: take the counter's value, increment the counter, and
  repeat while the value taken is a key of the table. The result is the handle and the
  new counter; \<open>None\<close> stands for a loop that never ends.
\<close>

partial_function (option) next_handle :: "(u32 \<rightharpoonup> u64) \<Rightarrow> u32 \<Rightarrow> (u32 \<times> u32) option" where
  "next_handle hs c = (if hs c \<noteq> None then next_handle hs (c + 1) else Some (c, c + 1))"

declare next_handle.simps [code]

definition handle_fuse_open ::
  "platform \<Rightarrow> AppFuse \<Rightarrow> fuse_in_header \<Rightarrow> (handled \<times> AppFuse) option" where
  "handle_fuse_open K s h =
     (if card (dom (handles s)) \<ge> NUM_MAX_HANDLES
      then Some ((- EMFILE, new_response, []), s)
      else case next_handle (handles s) (handle_counter s) of
             None \<Rightarrow> None
           | Some (handle, counter') \<Rightarrow>
               Some ((0,
                      \<lparr>response_size = sizeof_fuse_open_out K,
                       buffer = OpenOut \<lparr>fuse_open_out.fh = ucast handle\<rparr>\<rparr>,
                      []),
                     \<lparr>handles = (handles s)(handle \<mapsto> fuse_in_header.nodeid h),
                      handle_counter = counter'\<rparr>))"

text \<open>
  READ: \<^verbatim>\<open>std::map::find\<close> takes a key of type \<^verbatim>\<open>uint32_t\<close>, so the 64-bit \<^verbatim>\<open>fh\<close> is cut
  to its low 32 bits; \<^verbatim>\<open>get_object_bytes\<close> takes the inode as \<^verbatim>\<open>int\<close>.
\<close>

definition handle_fuse_read :: "provider \<Rightarrow> AppFuse \<Rightarrow> fuse_in_header \<Rightarrow> fuse_read_in \<Rightarrow> handled" where
  "handle_fuse_read P s h inp =
     (if unat (fuse_read_in.size_v inp) > MAX_READ then (- EINVAL, new_response, [])
      else case handles s (ucast (fuse_read_in.fh inp)) of
             None \<Rightarrow> (- EBADF, new_response, [])
           | Some inode \<Rightarrow>
               let offs = offset inp;
                   sz = fuse_read_in.size_v inp;
                   ((result, buf), ups) = get_object_bytes P (ucast inode) offs sz
               in if sint result < 0
                  then (- EIO, \<lparr>response_size = 0, buffer = buf\<rparr>, ups)
                  else (0, \<lparr>response_size = unat result, buffer = buf\<rparr>, ups))"

definition handle_fuse_release ::
  "AppFuse \<Rightarrow> fuse_in_header \<Rightarrow> fuse_release_in \<Rightarrow> handled \<times> AppFuse" where
  "handle_fuse_release s h inp =
     ((0, new_response, []),
      \<lparr>handles = (handles s)(ucast (fuse_release_in.fh inp) := None),
       handle_counter = handle_counter s\<rparr>)"

definition handle_fuse_flush :: "fuse_in_header \<Rightarrow> handled" where
  "handle_fuse_flush h = (0, new_response, [])"

subsection \<open>Dispatch\<close>

text \<open>
  \<^verbatim>\<open>invoke_handler\<close> after the handler has run: the reply is built from the request's
  \<^verbatim>\<open>unique\<close> (converted to the \<^verbatim>\<open>int\<close> parameter of \<^verbatim>\<open>fuse_reply\<close>), the reply code
  and the response.
\<close>

definition invoke_handler :: "platform \<Rightarrow> FuseRequest \<Rightarrow> handled \<Rightarrow> writev_call \<times> upcall list" where
  "invoke_handler K req r =
     (case r of (reply_code, response, ups) \<Rightarrow>
        (fuse_reply K (ucast (fuse_in_header.unique (header req))) reply_code
           (buffer response) (response_size response),
         ups))"

text \<open>
  The result of \<^verbatim>\<open>handle_fuse_request\<close>: the boolean it returns, the reply written (if
  any), the session afterwards and the provider calls made.
\<close>

record dispatched =
  continue :: bool
  written :: "writev_call option"
  session :: AppFuse
  calls :: "upcall list"

definition replied :: "AppFuse \<Rightarrow> writev_call \<times> upcall list \<Rightarrow> dispatched" where
  "replied s r = \<lparr>continue = True, written = Some (fst r), session = s, calls = snd r\<rparr>"

definition handle_fuse_request :: "platform \<Rightarrow> provider \<Rightarrow> AppFuse \<Rightarrow> FuseRequest \<Rightarrow> dispatched option" where
  "handle_fuse_request K P s req =
     (let h = header req; opc = opcode h in
      if opc = FUSE_LOOKUP then
        Some (replied s (invoke_handler K req (handle_fuse_lookup K P h (name req))))
      else if opc = FUSE_INIT then
        Some (replied s (invoke_handler K req (handle_fuse_init K h (init_in req))))
      else if opc = FUSE_GETATTR then
        Some (replied s (invoke_handler K req (handle_fuse_getattr K P h)))
      else if opc = FUSE_FORGET then
        Some \<lparr>continue = False, written = None, session = s, calls = []\<rparr>
      else if opc = FUSE_OPEN then
        (case handle_fuse_open K s h of
           None \<Rightarrow> None
         | Some (r, s') \<Rightarrow> Some (replied s' (invoke_handler K req r)))
      else if opc = FUSE_READ then
        Some (replied s (invoke_handler K req (handle_fuse_read P s h (read_in req))))
      else if opc = FUSE_RELEASE then
        (case handle_fuse_release s h (release_in req) of
           (r, s') \<Rightarrow> Some (replied s' (invoke_handler K req r)))
      else if opc = FUSE_FLUSH then
        Some (replied s (invoke_handler K req (handle_fuse_flush h)))
      else
        Some (replied s
               (fuse_reply K (ucast (fuse_in_header.unique h)) (- ENOSYS) NullData 0, [])))"

subsection \<open>The loop\<close>

text \<open>
  One \<^verbatim>\<open>read\<close> on the device either fails with an error number or fills the buffer with
  some number of bytes. The loop is run over the sequence of results its reads get,
  each paired with the provider as it behaves while that request is served. A run
  that has consumed the whole sequence is still blocked in \<^verbatim>\<open>read\<close>. A read that a
  signal interrupts is repeated by \<^verbatim>\<open>TEMP_FAILURE_RETRY\<close>, which is what the loop does
  for every error other than no-such-device.
\<close>

datatype read_result =
    ReadFailed cint
  | ReadOk nat FuseRequest

datatype loop_result =
    Returned bool
  | Blocked

record loop_run =
  result :: loop_result
  replies :: "writev_call list"
  final :: AppFuse

fun fuse_loop :: "platform \<Rightarrow> AppFuse \<Rightarrow> (provider \<times> read_result) list \<Rightarrow> loop_run option" where
  "fuse_loop K s [] = Some \<lparr>result = Blocked, replies = [], final = s\<rparr>"
| "fuse_loop K s ((P, ReadFailed errno) # rest) =
     (if errno = ENODEV then Some \<lparr>result = Returned False, replies = [], final = s\<rparr>
      else fuse_loop K s rest)"
| "fuse_loop K s ((P, ReadOk nread request) # rest) =
     (if nread < sizeof_fuse_in_header K then fuse_loop K s rest
      else if unat (fuse_in_header.len (header request)) \<noteq> nread then fuse_loop K s rest
      else case handle_fuse_request K P s request of
             None \<Rightarrow> None
           | Some d \<Rightarrow>
               if \<not> continue d
               then Some \<lparr>result = Returned True, replies = [], final = session d\<rparr>
               else (case fuse_loop K (session d) rest of
                       None \<Rightarrow> None
                     | Some run \<Rightarrow>
                         Some (run\<lparr>replies := (case written d of None \<Rightarrow> [] | Some w \<Rightarrow> [w]) @ replies run\<rparr>)))"

definition com_android_mtp_AppFuse_start_app_fuse_loop ::
  "platform \<Rightarrow> (provider \<times> read_result) list \<Rightarrow> loop_run option" where
  "com_android_mtp_AppFuse_start_app_fuse_loop K reads = fuse_loop K new_AppFuse reads"

text \<open>The session states the dispatcher can produce from a fresh session.\<close>

inductive reachable :: "platform \<Rightarrow> AppFuse \<Rightarrow> bool" for K :: platform where
  init: "reachable K new_AppFuse"
| step: "reachable K s \<Longrightarrow> handle_fuse_request K P s req = Some d \<Longrightarrow> reachable K (session d)"

text \<open>The eight opcodes the dispatcher has a case for.\<close>

definition supported :: "u32 set" where
  "supported = {FUSE_LOOKUP, FUSE_INIT, FUSE_GETATTR, FUSE_FORGET,
                FUSE_OPEN, FUSE_READ, FUSE_RELEASE, FUSE_FLUSH}"

subsection \<open>Notions of the specification\<close>

text \<open>
  The effective size of a READ, in the words of the specification:
  \<open>effective_size = min(in.size, max(0, file_size(inode) - in.offset))\<close>, over the
  integers: the request's size and offset are unsigned, the file size is signed.
\<close>

definition spec_effective_size :: "u32 \<Rightarrow> int64_t \<Rightarrow> u64 \<Rightarrow> int" where
  "spec_effective_size sz fsize offs = min (uint sz) (max 0 (sint fsize - uint offs))"

text \<open>
  Two readings of ``the name parses as a decimal integer''. In the strict one the whole
  name is an optional sign followed by one or more digits. In the other the name only
  has to begin with an integer: after leading white space and one optional sign come
  one or more digits, and whatever follows them is ignored; \<open>leading_integer\<close> is
  that integer, as a number without bound, or \<open>None\<close> when there is no digit.
\<close>

definition decimal_integer :: "string \<Rightarrow> bool" where
  "decimal_integer s =
     (case s of
        [] \<Rightarrow> False
      | c # cs \<Rightarrow>
          if c = CHR ''-'' \<or> c = CHR ''+'' then cs \<noteq> [] \<and> list_all isdigit cs
          else list_all isdigit (c # cs))"

definition integer_prefix :: "string \<Rightarrow> int option" where
  "integer_prefix r =
     (let neg = (r \<noteq> [] \<and> hd r = CHR ''-'');
          body = (if r \<noteq> [] \<and> (hd r = CHR ''-'' \<or> hd r = CHR ''+'') then tl r else r);
          ds = takeWhile isdigit body
      in if ds = [] then None
         else Some ((if neg then - 1 else 1)
                    * foldl (\<lambda>a c. a * 10 + (of_char c - 48)) 0 ds))"

definition leading_integer :: "string \<Rightarrow> int option" where
  "leading_integer s = integer_prefix (dropWhile isspace s)"

subsection \<open>Concrete providers and requests\<close>

text \<open>
  A provider that knows no file, and one whose files all have ten bytes and which
  returns exactly as many bytes as it is asked for.
\<close>

definition no_files :: provider where
  "no_files = \<lparr>getFileSize = (\<lambda>_. - 1), getObjectBytes = (\<lambda>_ _ _. None)\<rparr>"

definition ten_bytes :: provider where
  "ten_bytes =
     \<lparr>getFileSize = (\<lambda>_. 10),
      getObjectBytes = (\<lambda>_ _ n. Some \<lparr>elements = replicate (unat n) 0x41, pinned = True\<rparr>)\<rparr>"

text \<open>A request frame with the given opcode, unique and node id and an all-zero data region.\<close>

definition request :: "u32 \<Rightarrow> u64 \<Rightarrow> u64 \<Rightarrow> FuseRequest" where
  "request opc uniq nid =
     \<lparr>header = \<lparr>fuse_in_header.len = 40, opcode = opc, fuse_in_header.unique = uniq,
                 fuse_in_header.nodeid = nid\<rparr>,
      name = [],
      init_in = \<lparr>fuse_init_in.major = 0, fuse_init_in.minor = 0,
                  fuse_init_in.max_readahead = 0, fuse_init_in.flags = 0\<rparr>,
      read_in = \<lparr>fuse_read_in.fh = 0, offset = 0, size_v = 0\<rparr>,
      release_in = \<lparr>fuse_release_in.fh = 0\<rparr>\<rparr>"

text \<open>An INIT request of a kernel with the given major and minor version.\<close>

definition init_request :: "u32 \<Rightarrow> u32 \<Rightarrow> FuseRequest" where
  "init_request mj mn =
     (request FUSE_INIT 1 0)
       \<lparr>init_in := \<lparr>fuse_init_in.major = mj, fuse_init_in.minor = mn,
                     fuse_init_in.max_readahead = 131072, fuse_init_in.flags = 0\<rparr>\<rparr>"

text \<open>A session whose table holds the 1024 tokens 0 .. 1023.\<close>

definition full_session :: AppFuse where
  "full_session =
     \<lparr>handles = (\<lambda>t. if unat t < 1024 then Some 7 else None), handle_counter = 1024\<rparr>"

text \<open>A READ request for \<open>sz\<close> bytes at \<open>offs\<close> through the handle \<open>fh\<close>.\<close>

definition read_request :: "u64 \<Rightarrow> u64 \<Rightarrow> u32 \<Rightarrow> FuseRequest" where
  "read_request t offs sz =
     (request FUSE_READ 4 0)
       \<lparr>read_in := \<lparr>fuse_read_in.fh = t, offset = offs, size_v = sz\<rparr>\<rparr>"

definition release_request :: "u64 \<Rightarrow> FuseRequest" where
  "release_request t =
     (request FUSE_RELEASE 5 0)\<lparr>release_in := \<lparr>fuse_release_in.fh = t\<rparr>\<rparr>"

text \<open>What the dispatcher returns for the first OPEN of a session, on node 5.\<close>

definition first_open :: dispatched where
  "first_open =
     \<lparr>continue = True,
      written = Some (fuse_reply android_lp64 3 0 (OpenOut \<lparr>fuse_open_out.fh = 0\<rparr>) 16),
      session = \<lparr>handles = [0 \<mapsto> 5], handle_counter = 1\<rparr>,
      calls = []\<rparr>"

text \<open>
  A session in which the counter points at a live token: tokens 0 and 1 are in the table
  and the counter is 0, so the next OPEN has to skip both.
\<close>

definition wrapped_session :: AppFuse where
  "wrapped_session = \<lparr>handles = [0 \<mapsto> 5, 1 \<mapsto> 6], handle_counter = 0\<rparr>"

text \<open>A LOOKUP request for the given name under the given parent node.\<close>

definition lookup_request :: "u64 \<Rightarrow> string \<Rightarrow> FuseRequest" where
  "lookup_request parent nm = (request FUSE_LOOKUP 8 parent)\<lparr>name := nm\<rparr>"

section \<open>Properties\<close>

subsection \<open>The handle search of OPEN ends\<close>

lemma next_handle_steps:
  "hs (c + of_nat n) = None \<Longrightarrow> \<exists>t. next_handle hs c = Some (t, t + 1) \<and> hs t = None"
proof (induction n arbitrary: c)
  case 0
  then show ?case by (subst next_handle.simps) simp
next
  case (Suc n)
  show ?case
  proof (cases "hs c")
    case None
    then show ?thesis by (subst next_handle.simps) simp
  next
    case (Some v)
    from Suc.prems have "hs ((c + 1) + of_nat n) = None" by (simp add: ac_simps)
    from Suc.IH [OF this] obtain t where "next_handle hs (c + 1) = Some (t, t + 1)" "hs t = None"
      by blast
    with Some show ?thesis by (subst next_handle.simps) simp
  qed
qed

lemma free_key:
  fixes hs :: "u32 \<rightharpoonup> u64"
  assumes "card (dom hs) < 2 ^ 32"
  shows "\<exists>k. hs k = None"
proof (rule ccontr)
  assume "\<not> (\<exists>k. hs k = None)"
  then have "dom hs = UNIV" by auto
  then have "card (dom hs) = 2 ^ 32" by (simp add: card_word)
  with assms show False by simp
qed

lemma next_handle_total:
  fixes hs :: "u32 \<rightharpoonup> u64"
  assumes "card (dom hs) < 2 ^ 32"
  shows "\<exists>t. next_handle hs c = Some (t, t + 1) \<and> hs t = None"
proof -
  from free_key [OF assms] obtain k where k: "hs k = None" by blast
  have "c + of_nat (unat (k - c)) = k" by simp
  with k have "hs (c + of_nat (unat (k - c))) = None" by simp
  then show ?thesis by (rule next_handle_steps)
qed

lemma handle_fuse_open_full:
  "NUM_MAX_HANDLES \<le> card (dom (handles s)) \<Longrightarrow>
   handle_fuse_open K s h = Some ((- EMFILE, new_response, []), s)"
  by (simp add: handle_fuse_open_def)

lemma handle_fuse_open_free:
  assumes "card (dom (handles s)) < NUM_MAX_HANDLES"
  shows "\<exists>t. handle_fuse_open K s h =
           Some ((0, \<lparr>response_size = sizeof_fuse_open_out K,
                      buffer = OpenOut \<lparr>fuse_open_out.fh = ucast t\<rparr>\<rparr>, []),
                 \<lparr>handles = (handles s)(t \<mapsto> fuse_in_header.nodeid h),
                  handle_counter = t + 1\<rparr>)
         \<and> handles s t = None"
proof -
  from assms have "card (dom (handles s)) < 2 ^ 32" by (simp add: NUM_MAX_HANDLES_def)
  from next_handle_total [OF this, of "handle_counter s"] obtain t
    where "next_handle (handles s) (handle_counter s) = Some (t, t + 1)" "handles s t = None"
    by blast
  with assms show ?thesis by (auto simp: handle_fuse_open_def)
qed

lemma handle_fuse_open_total: "handle_fuse_open K s h \<noteq> None"
proof (cases "card (dom (handles s)) < NUM_MAX_HANDLES")
  case True
  from handle_fuse_open_free [OF this] show ?thesis by fastforce
next
  case False
  then show ?thesis by (simp add: handle_fuse_open_full)
qed

subsection \<open>What the dispatcher does for each opcode\<close>

lemmas opcode_defs =
  FUSE_LOOKUP_def FUSE_FORGET_def FUSE_GETATTR_def FUSE_OPEN_def
  FUSE_READ_def FUSE_RELEASE_def FUSE_FLUSH_def FUSE_INIT_def

lemma dispatch_LOOKUP:
  "opcode (header req) = FUSE_LOOKUP \<Longrightarrow>
   handle_fuse_request K P s req =
     Some (replied s (invoke_handler K req (handle_fuse_lookup K P (header req) (name req))))"
  by (simp add: handle_fuse_request_def Let_def)

lemma dispatch_INIT:
  "opcode (header req) = FUSE_INIT \<Longrightarrow>
   handle_fuse_request K P s req =
     Some (replied s (invoke_handler K req (handle_fuse_init K (header req) (init_in req))))"
  by (simp add: handle_fuse_request_def Let_def opcode_defs)

lemma dispatch_GETATTR:
  "opcode (header req) = FUSE_GETATTR \<Longrightarrow>
   handle_fuse_request K P s req =
     Some (replied s (invoke_handler K req (handle_fuse_getattr K P (header req))))"
  by (simp add: handle_fuse_request_def Let_def opcode_defs)

lemma dispatch_FORGET:
  "opcode (header req) = FUSE_FORGET \<Longrightarrow>
   handle_fuse_request K P s req =
     Some \<lparr>continue = False, written = None, session = s, calls = []\<rparr>"
  by (simp add: handle_fuse_request_def Let_def opcode_defs)

lemma dispatch_OPEN:
  "opcode (header req) = FUSE_OPEN \<Longrightarrow>
   handle_fuse_request K P s req =
     (case handle_fuse_open K s (header req) of
        None \<Rightarrow> None
      | Some (r, s') \<Rightarrow> Some (replied s' (invoke_handler K req r)))"
  by (simp add: handle_fuse_request_def Let_def opcode_defs)

lemma dispatch_READ:
  "opcode (header req) = FUSE_READ \<Longrightarrow>
   handle_fuse_request K P s req =
     Some (replied s (invoke_handler K req (handle_fuse_read P s (header req) (read_in req))))"
  by (simp add: handle_fuse_request_def Let_def opcode_defs)

lemma dispatch_RELEASE:
  "opcode (header req) = FUSE_RELEASE \<Longrightarrow>
   handle_fuse_request K P s req =
     Some (replied (snd (handle_fuse_release s (header req) (release_in req)))
            (invoke_handler K req (fst (handle_fuse_release s (header req) (release_in req)))))"
  by (simp add: handle_fuse_request_def Let_def opcode_defs split: prod.splits)

lemma dispatch_FLUSH:
  "opcode (header req) = FUSE_FLUSH \<Longrightarrow>
   handle_fuse_request K P s req =
     Some (replied s (invoke_handler K req (handle_fuse_flush (header req))))"
  by (simp add: handle_fuse_request_def Let_def opcode_defs)

lemma dispatch_default:
  "opcode (header req) \<notin> supported \<Longrightarrow>
   handle_fuse_request K P s req =
     Some (replied s
            (fuse_reply K (ucast (fuse_in_header.unique (header req))) (- ENOSYS) NullData 0, []))"
  by (simp add: handle_fuse_request_def Let_def supported_def)

lemma dispatch_cases:
  obtains "opcode (header req) = FUSE_LOOKUP" | "opcode (header req) = FUSE_INIT"
  | "opcode (header req) = FUSE_GETATTR" | "opcode (header req) = FUSE_FORGET"
  | "opcode (header req) = FUSE_OPEN" | "opcode (header req) = FUSE_READ"
  | "opcode (header req) = FUSE_RELEASE" | "opcode (header req) = FUSE_FLUSH"
  | "opcode (header req) \<notin> supported"
  unfolding supported_def by blast

lemma handle_fuse_request_total: "handle_fuse_request K P s req \<noteq> None"
proof (cases rule: dispatch_cases [of req])
  case 5
  obtain r s' where "handle_fuse_open K s (header req) = Some (r, s')"
    using handle_fuse_open_total [of K s "header req"] by (cases "handle_fuse_open K s (header req)") auto
  with 5 show ?thesis by (simp add: dispatch_OPEN)
qed (simp_all add: dispatch_LOOKUP dispatch_INIT dispatch_GETATTR dispatch_FORGET
       dispatch_READ dispatch_RELEASE dispatch_FLUSH dispatch_default)

lemma invoke_handler_simp:
  "invoke_handler K req (code, resp, ups) =
     (fuse_reply K (ucast (fuse_in_header.unique (header req))) code (buffer resp) (response_size resp), ups)"
  by (simp add: invoke_handler_def)

lemma fuse_reply_error [simp]: "error (hdr (fuse_reply K u code d n)) = code"
  by (simp add: fuse_reply_def Let_def)

lemma fuse_reply_unique [simp]: "fuse_out_header.unique (hdr (fuse_reply K u code d n)) = scast u"
  by (simp add: fuse_reply_def Let_def)

lemma fuse_reply_base [simp]: "vec1_base (fuse_reply K u code d n) = d"
  by (simp add: fuse_reply_def Let_def)

lemma fuse_reply_vec1_len [simp]: "vec1_len (fuse_reply K u code d n) = (if code \<noteq> 0 then 0 else n)"
  by (simp add: fuse_reply_def Let_def)

lemma fuse_reply_vec0_len: "vec0_len (fuse_reply K u code d n) = sizeof_fuse_out_header K"
  by (simp add: fuse_reply_def Let_def)

lemma fuse_reply_iovcnt:
  "iovcnt (fuse_reply K u code d n) = (if code \<noteq> 0 \<or> n = 0 then 1 else 2)"
  by (simp add: fuse_reply_def Let_def)

lemma fuse_reply_len:
  "fuse_out_header.len (hdr (fuse_reply K u code d n)) =
     of_nat ((if code \<noteq> 0 then 0 else n) + sizeof_fuse_out_header K)"
  by (simp add: fuse_reply_def Let_def)

lemmas fuse_reply_sent = fuse_reply_vec0_len fuse_reply_iovcnt fuse_reply_len

subsection \<open>Reply framing and INIT\<close>

text \<open>
  C7. Framing of a reply. With a nonzero reply code the payload length is forced to 0,
  the header's \<open>len\<close> is the header size and one segment is written. With reply code 0
  the header's \<open>len\<close> is the header size plus the payload size, and the payload segment
  is part of the gather-write exactly when the payload size is greater than 0. \<open>len\<close> is
  a 32-bit field, so the sum is read as a number whenever it fits the field.
\<close>

theorem fuse_reply_framing:
  "error (hdr (fuse_reply K u code d n)) = code
   \<and> vec0_len (fuse_reply K u code d n) = sizeof_fuse_out_header K
   \<and> (code \<noteq> 0 \<longrightarrow>
        vec1_len (fuse_reply K u code d n) = 0
        \<and> fuse_out_header.len (hdr (fuse_reply K u code d n)) = of_nat (sizeof_fuse_out_header K)
        \<and> iovcnt (fuse_reply K u code d n) = 1)
   \<and> (code = 0 \<longrightarrow>
        vec1_len (fuse_reply K u code d n) = n
        \<and> fuse_out_header.len (hdr (fuse_reply K u code d n)) = of_nat (sizeof_fuse_out_header K + n)
        \<and> (iovcnt (fuse_reply K u code d n) = 2 \<longleftrightarrow> 0 < n)
        \<and> (iovcnt (fuse_reply K u code d n) = 1 \<longleftrightarrow> n = 0))
   \<and> (sizeof_fuse_out_header K + n < 2 ^ 32 \<longrightarrow>
        unat (fuse_out_header.len (hdr (fuse_reply K u code d n))) =
          sizeof_fuse_out_header K + vec1_len (fuse_reply K u code d n))"
proof -
  have "unat (of_nat (sizeof_fuse_out_header K) + of_nat n :: u32) = sizeof_fuse_out_header K + n"
    if "sizeof_fuse_out_header K + n < 2 ^ 32"
  proof -
    have "unat (of_nat (sizeof_fuse_out_header K + n) :: u32) = sizeof_fuse_out_header K + n"
      using that by (simp add: unat_of_nat del: of_nat_add)
    then show ?thesis by simp
  qed
  moreover have "unat (of_nat (sizeof_fuse_out_header K) :: u32) = sizeof_fuse_out_header K"
    if "sizeof_fuse_out_header K + n < 2 ^ 32"
    using that by (simp add: unat_of_nat)
  ultimately show ?thesis
    by (simp add: fuse_reply_def Let_def add.commute)
qed

theorem fuse_reply_framing_witness:
  "- ENOENT \<noteq> 0
   \<and> vec1_len (fuse_reply android_lp64 7 (- ENOENT) Unwritten 104) = 0
   \<and> fuse_out_header.len (hdr (fuse_reply android_lp64 7 (- ENOENT) Unwritten 104)) = 16
   \<and> iovcnt (fuse_reply android_lp64 7 (- ENOENT) Unwritten 104) = 1
   \<and> sizeof_fuse_out_header android_lp64 + 4 < (2::nat) ^ 32
   \<and> unat (fuse_out_header.len (hdr (fuse_reply android_lp64 7 0 (Bytes [1, 2, 3, 4]) 4))) = 20
   \<and> iovcnt (fuse_reply android_lp64 7 0 (Bytes [1, 2, 3, 4]) 4) = 2
   \<and> iovcnt (fuse_reply android_lp64 7 0 Unwritten 0) = 1"
  using fuse_reply_framing [of android_lp64 7 "- ENOENT" Unwritten 104]
    fuse_reply_framing [of android_lp64 7 0 "Bytes [1, 2, 3, 4]" 4]
    fuse_reply_framing [of android_lp64 7 0 Unwritten 0]
  by (simp add: ENOENT_def android_lp64_def)

text \<open>
  C5. An INIT request whose major version is the one the file was compiled against and
  whose minor version is at least 6 is answered with reply code 0 and an INIT-out
  structure holding the same major, minor = min(kernel minor, 15), the request's
  \<open>max_readahead\<close>, the flags \<open>FUSE_ATOMIC_O_TRUNC | FUSE_BIG_WRITES\<close>,
  \<open>max_background\<close> = 32, \<open>congestion_threshold\<close> = 32 and \<open>max_write\<close> = 256 KiB. With
  another major or a minor below 6 the reply code is - 1, which is negative. The
  successful reply is written as two segments, the header and the INIT-out structure
  in the size the handler chose; the failing reply is the header alone.
\<close>

theorem init_negotiation:
  "opcode (header req) = FUSE_INIT \<Longrightarrow>
   (fuse_init_in.major (init_in req) = FUSE_KERNEL_VERSION K
      \<and> 6 \<le> fuse_init_in.minor (init_in req) \<longrightarrow>
    (\<exists>w out. handle_fuse_request K P s req =
                Some \<lparr>continue = True, written = Some w, session = s, calls = []\<rparr>
       \<and> error (hdr w) = 0
       \<and> vec1_base w = InitOut out
       \<and> vec1_len w =
            (case FUSE_COMPAT_22_INIT_OUT_SIZE K of
               None \<Rightarrow> sizeof_fuse_init_out K
             | Some c \<Rightarrow> if fuse_init_in.minor (init_in req) \<le> 22 then c
                         else sizeof_fuse_init_out K)
       \<and> iovcnt w = (if vec1_len w = 0 then 1 else 2)
       \<and> vec0_len w = sizeof_fuse_out_header K
       \<and> fuse_out_header.len (hdr w) = of_nat (vec1_len w + sizeof_fuse_out_header K)
       \<and> fuse_init_out.major out = FUSE_KERNEL_VERSION K
       \<and> fuse_init_out.minor out = min (fuse_init_in.minor (init_in req)) 15
       \<and> fuse_init_out.max_readahead out = fuse_init_in.max_readahead (init_in req)
       \<and> fuse_init_out.flags out = FUSE_ATOMIC_O_TRUNC OR FUSE_BIG_WRITES
       \<and> max_background out = 32
       \<and> congestion_threshold out = 32
       \<and> unat (max_write out) = 256 * 1024))
   \<and> (fuse_init_in.major (init_in req) \<noteq> FUSE_KERNEL_VERSION K
        \<or> fuse_init_in.minor (init_in req) < 6 \<longrightarrow>
      (\<exists>w. handle_fuse_request K P s req =
              Some \<lparr>continue = True, written = Some w, session = s, calls = []\<rparr>
         \<and> error (hdr w) = - 1
         \<and> sint (error (hdr w)) < 0
         \<and> vec1_len w = 0
         \<and> iovcnt w = 1
         \<and> vec0_len w = sizeof_fuse_out_header K
         \<and> fuse_out_header.len (hdr w) = of_nat (sizeof_fuse_out_header K)))"
  by (auto simp: dispatch_INIT handle_fuse_init_def replied_def invoke_handler_simp Let_def
        MAX_WRITE_def new_response_def not_less fuse_reply_sent split: option.splits)

theorem init_negotiation_witness:
  "opcode (header (init_request 7 22)) = FUSE_INIT
   \<and> fuse_init_in.major (init_in (init_request 7 22)) = FUSE_KERNEL_VERSION android_lp64
   \<and> 6 \<le> fuse_init_in.minor (init_in (init_request 7 22))
   \<and> (\<exists>w out. handle_fuse_request android_lp64 no_files new_AppFuse (init_request 7 22) =
            Some \<lparr>continue = True, written = Some w, session = new_AppFuse, calls = []\<rparr>
        \<and> error (hdr w) = 0 \<and> vec1_base w = InitOut out
        \<and> vec1_len w = 24
        \<and> iovcnt w = 2
        \<and> vec0_len w = 16
        \<and> fuse_out_header.len (hdr w) = 40
        \<and> fuse_init_out.major out = 7
        \<and> fuse_init_out.minor out = 15
        \<and> fuse_init_out.max_readahead out = 131072
        \<and> fuse_init_out.flags out = 40
        \<and> max_background out = 32
        \<and> congestion_threshold out = 32
        \<and> unat (max_write out) = 262144)
   \<and> opcode (header (init_request 7 31)) = FUSE_INIT
   \<and> fuse_init_in.major (init_in (init_request 7 31)) = FUSE_KERNEL_VERSION android_lp64
   \<and> 6 \<le> fuse_init_in.minor (init_in (init_request 7 31))
   \<and> (\<exists>w out. handle_fuse_request android_lp64 no_files new_AppFuse (init_request 7 31) =
            Some \<lparr>continue = True, written = Some w, session = new_AppFuse, calls = []\<rparr>
        \<and> error (hdr w) = 0 \<and> vec1_base w = InitOut out
        \<and> vec1_len w = 64
        \<and> iovcnt w = 2
        \<and> fuse_out_header.len (hdr w) = 80
        \<and> fuse_init_out.minor out = 15)
   \<and> fuse_init_in.minor (init_in (init_request 7 5)) < 6
   \<and> (\<exists>w. handle_fuse_request android_lp64 no_files new_AppFuse (init_request 7 5) =
            Some \<lparr>continue = True, written = Some w, session = new_AppFuse, calls = []\<rparr>
        \<and> error (hdr w) = - 1 \<and> sint (error (hdr w)) < 0 \<and> vec1_len w = 0
        \<and> iovcnt w = 1 \<and> vec0_len w = 16 \<and> fuse_out_header.len (hdr w) = 16)
   \<and> fuse_init_in.major (init_in (init_request 8 22)) \<noteq> FUSE_KERNEL_VERSION android_lp64
   \<and> (\<exists>w. handle_fuse_request android_lp64 no_files new_AppFuse (init_request 8 22) =
            Some \<lparr>continue = True, written = Some w, session = new_AppFuse, calls = []\<rparr>
        \<and> error (hdr w) = - 1 \<and> vec1_len w = 0 \<and> iovcnt w = 1)"
  using init_negotiation [of "init_request 7 22" android_lp64 no_files new_AppFuse]
    init_negotiation [of "init_request 7 31" android_lp64 no_files new_AppFuse]
    init_negotiation [of "init_request 7 5" android_lp64 no_files new_AppFuse]
    init_negotiation [of "init_request 8 22" android_lp64 no_files new_AppFuse]
  by (auto simp: init_request_def request_def android_lp64_def
        FUSE_ATOMIC_O_TRUNC_def FUSE_BIG_WRITES_def)

subsection \<open>The handle table under each request\<close>

lemma card_low_words: "n \<le> 2 ^ 32 \<Longrightarrow> card {t :: u32. unat t < n} = n"
proof -
  assume n: "n \<le> 2 ^ 32"
  have "{t :: u32. unat t < n} = of_nat ` {..<n}"
  proof (intro set_eqI iffI)
    fix t :: u32 assume "t \<in> {t. unat t < n}"
    then have "unat t \<in> {..<n}" by simp
    then have "of_nat (unat t) \<in> (of_nat ` {..<n} :: u32 set)" by (rule imageI)
    then show "t \<in> of_nat ` {..<n}" by simp
  next
    fix t :: u32 assume "t \<in> of_nat ` {..<n}"
    then obtain m where m: "m < n" "t = of_nat m" by auto
    with n have "m < 2 ^ 32" by simp
    then have "unat (of_nat m :: u32) = m" by (simp add: unat_of_nat)
    with m show "t \<in> {t. unat t < n}" by simp
  qed
  moreover have "inj_on (of_nat :: nat \<Rightarrow> u32) {..<n}"
  proof (rule inj_onI)
    fix x y assume "x \<in> {..<n}" "y \<in> {..<n}" and eq: "(of_nat x :: u32) = of_nat y"
    with n have "x < 2 ^ 32" "y < 2 ^ 32" by auto
    then have "unat (of_nat x :: u32) = x" "unat (of_nat y :: u32) = y"
      by (simp_all add: unat_of_nat)
    then show "x = y" using eq by metis
  qed
  ultimately show ?thesis by (simp add: card_image)
qed

lemma card_full_session: "card (dom (handles full_session)) = 1024"
proof -
  have "dom (handles full_session) = {t. unat t < 1024}"
    by (auto simp: full_session_def split: if_splits)
  then show ?thesis by (simp add: card_low_words)
qed

lemma request_OPEN_full:
  assumes "opcode (header req) = FUSE_OPEN" "NUM_MAX_HANDLES \<le> card (dom (handles s))"
  shows "handle_fuse_request K P s req =
           Some \<lparr>continue = True,
                 written = Some (fuse_reply K (ucast (fuse_in_header.unique (header req)))
                                   (- EMFILE) Unwritten 0),
                 session = s, calls = []\<rparr>"
  using assms
  by (simp add: dispatch_OPEN handle_fuse_open_full replied_def invoke_handler_simp new_response_def)

lemma request_OPEN_free:
  assumes "opcode (header req) = FUSE_OPEN" "card (dom (handles s)) < NUM_MAX_HANDLES"
  shows "\<exists>t. handle_fuse_request K P s req =
           Some \<lparr>continue = True,
                 written = Some (fuse_reply K (ucast (fuse_in_header.unique (header req))) 0
                                   (OpenOut \<lparr>fuse_open_out.fh = ucast t\<rparr>) (sizeof_fuse_open_out K)),
                 session = \<lparr>handles = (handles s)(t \<mapsto> fuse_in_header.nodeid (header req)),
                            handle_counter = t + 1\<rparr>,
                 calls = []\<rparr>
         \<and> handles s t = None"
proof -
  from handle_fuse_open_free [OF assms(2), of K "header req"] obtain t where
    "handle_fuse_open K s (header req) =
       Some ((0, \<lparr>response_size = sizeof_fuse_open_out K,
                  buffer = OpenOut \<lparr>fuse_open_out.fh = ucast t\<rparr>\<rparr>, []),
             \<lparr>handles = (handles s)(t \<mapsto> fuse_in_header.nodeid (header req)),
              handle_counter = t + 1\<rparr>)"
    and "handles s t = None" by blast
  with assms(1) show ?thesis
    by (simp add: dispatch_OPEN replied_def invoke_handler_simp)
qed

lemma request_RELEASE:
  assumes "opcode (header req) = FUSE_RELEASE"
  shows "handle_fuse_request K P s req =
           Some \<lparr>continue = True,
                 written = Some (fuse_reply K (ucast (fuse_in_header.unique (header req))) 0
                                   Unwritten 0),
                 session = \<lparr>handles = (handles s)(ucast (fuse_release_in.fh (release_in req)) := None),
                            handle_counter = handle_counter s\<rparr>,
                 calls = []\<rparr>"
  using assms
  by (simp add: dispatch_RELEASE handle_fuse_release_def replied_def invoke_handler_simp
        new_response_def)

lemma request_keeps_session:
  assumes "handle_fuse_request K P s req = Some d"
    and "opcode (header req) \<noteq> FUSE_OPEN" "opcode (header req) \<noteq> FUSE_RELEASE"
  shows "session d = s"
  using assms
  by (cases rule: dispatch_cases [of req])
     (auto simp: dispatch_LOOKUP dispatch_INIT dispatch_GETATTR dispatch_FORGET
        dispatch_READ dispatch_FLUSH dispatch_default replied_def)

lemma request_keeps_bound:
  assumes "handle_fuse_request K P s req = Some d"
    and "card (dom (handles s)) \<le> NUM_MAX_HANDLES"
  shows "card (dom (handles (session d))) \<le> NUM_MAX_HANDLES"
proof (cases "opcode (header req) = FUSE_OPEN")
  case True
  show ?thesis
  proof (cases "card (dom (handles s)) < NUM_MAX_HANDLES")
    case free: True
    from request_OPEN_free [OF True free, of K P] assms(1) obtain t where
      "handles (session d) = (handles s)(t \<mapsto> fuse_in_header.nodeid (header req))"
      "handles s t = None" by auto
    then have "card (dom (handles (session d))) = Suc (card (dom (handles s)))"
      by (simp add: domIff)
    with free show ?thesis by simp
  next
    case False
    then have "NUM_MAX_HANDLES \<le> card (dom (handles s))" by simp
    from request_OPEN_full [OF True this, of K P] assms show ?thesis by simp
  qed
next
  case False
  show ?thesis
  proof (cases "opcode (header req) = FUSE_RELEASE")
    case True
    from request_RELEASE [OF True, of K P s] assms(1)
    have "handles (session d) = (handles s)(ucast (fuse_release_in.fh (release_in req)) := None)"
      by auto
    then have "card (dom (handles (session d))) \<le> card (dom (handles s))"
      by (simp add: card_Diff1_le)
    with assms(2) show ?thesis by simp
  next
    case rel: False
    from request_keeps_session [OF assms(1) False rel] assms(2) show ?thesis by simp
  qed
qed

lemma reachable_bound: "reachable K s \<Longrightarrow> card (dom (handles s)) \<le> NUM_MAX_HANDLES"
proof (induction rule: reachable.induct)
  case init
  show ?case by (simp add: new_AppFuse_def)
next
  case (step s P req d)
  then show ?case by (simp add: request_keeps_bound)
qed

text \<open>The \<open>fh\<close> of an OPEN reply determines the token.\<close>

lemma token_narrow: "(ucast (ucast (t :: u32) :: u64) :: u32) = t"
  by (rule bit_word_eqI) (auto simp: bit_simps)

lemma token_of_fh: "(ucast (t :: u32) :: u64) = ucast t' \<Longrightarrow> t = t'"
  by (metis token_narrow)

text \<open>
  C4. No reachable session holds more than 1024 handles. An OPEN on a table of 1024
  entries (or more) is answered too-many-open-files, as a reply of the header alone,
  and leaves the session as it was. An OPEN on a smaller table is answered with a token
  that was not a key of the table, sent as the payload segment of the reply, and
  afterwards the table maps that token to the node id of the OPEN request and is
  otherwise unchanged.
\<close>

theorem handle_table_bounded:
  "(reachable K s0 \<longrightarrow> card (dom (handles s0)) \<le> 1024)
   \<and> (opcode (header req) = FUSE_OPEN \<and> 1024 \<le> card (dom (handles s)) \<longrightarrow>
        (\<exists>w. handle_fuse_request K P s req =
                Some \<lparr>continue = True, written = Some w, session = s, calls = []\<rparr>
           \<and> error (hdr w) = - EMFILE
           \<and> vec1_len w = 0
           \<and> iovcnt w = 1
           \<and> vec0_len w = sizeof_fuse_out_header K
           \<and> fuse_out_header.len (hdr w) = of_nat (sizeof_fuse_out_header K)))
   \<and> (opcode (header req) = FUSE_OPEN \<and> card (dom (handles s)) < 1024 \<longrightarrow>
        (\<exists>d w t. handle_fuse_request K P s req = Some d
           \<and> continue d
           \<and> written d = Some w
           \<and> error (hdr w) = 0
           \<and> vec1_base w = OpenOut \<lparr>fuse_open_out.fh = ucast t\<rparr>
           \<and> vec1_len w = sizeof_fuse_open_out K
           \<and> iovcnt w = (if sizeof_fuse_open_out K = 0 then 1 else 2)
           \<and> vec0_len w = sizeof_fuse_out_header K
           \<and> fuse_out_header.len (hdr w) =
                of_nat (sizeof_fuse_open_out K + sizeof_fuse_out_header K)
           \<and> handles s t = None
           \<and> handles (session d) = (handles s)(t \<mapsto> fuse_in_header.nodeid (header req))))"
proof (intro conjI impI)
  assume "reachable K s0"
  then show "card (dom (handles s0)) \<le> 1024"
    using reachable_bound [of K s0] by (simp add: NUM_MAX_HANDLES_def)
next
  assume "opcode (header req) = FUSE_OPEN \<and> 1024 \<le> card (dom (handles s))"
  then have "opcode (header req) = FUSE_OPEN" "NUM_MAX_HANDLES \<le> card (dom (handles s))"
    by (simp_all add: NUM_MAX_HANDLES_def)
  from request_OPEN_full [OF this, of K P]
  show "\<exists>w. handle_fuse_request K P s req =
               Some \<lparr>continue = True, written = Some w, session = s, calls = []\<rparr>
          \<and> error (hdr w) = - EMFILE
          \<and> vec1_len w = 0
          \<and> iovcnt w = 1
          \<and> vec0_len w = sizeof_fuse_out_header K
          \<and> fuse_out_header.len (hdr w) = of_nat (sizeof_fuse_out_header K)"
    by (simp add: fuse_reply_sent EMFILE_def)
next
  assume "opcode (header req) = FUSE_OPEN \<and> card (dom (handles s)) < 1024"
  then have "opcode (header req) = FUSE_OPEN" "card (dom (handles s)) < NUM_MAX_HANDLES"
    by (simp_all add: NUM_MAX_HANDLES_def)
  from request_OPEN_free [OF this, of K P] obtain t where
    "handle_fuse_request K P s req =
       Some \<lparr>continue = True,
             written = Some (fuse_reply K (ucast (fuse_in_header.unique (header req))) 0
                               (OpenOut \<lparr>fuse_open_out.fh = ucast t\<rparr>) (sizeof_fuse_open_out K)),
             session = \<lparr>handles = (handles s)(t \<mapsto> fuse_in_header.nodeid (header req)),
                        handle_counter = t + 1\<rparr>,
             calls = []\<rparr>"
    and "handles s t = None" by blast
  then show "\<exists>d w t. handle_fuse_request K P s req = Some d
           \<and> continue d
           \<and> written d = Some w
           \<and> error (hdr w) = 0
           \<and> vec1_base w = OpenOut \<lparr>fuse_open_out.fh = ucast t\<rparr>
           \<and> vec1_len w = sizeof_fuse_open_out K
           \<and> iovcnt w = (if sizeof_fuse_open_out K = 0 then 1 else 2)
           \<and> vec0_len w = sizeof_fuse_out_header K
           \<and> fuse_out_header.len (hdr w) =
                of_nat (sizeof_fuse_open_out K + sizeof_fuse_out_header K)
           \<and> handles s t = None
           \<and> handles (session d) = (handles s)(t \<mapsto> fuse_in_header.nodeid (header req))"
    by (auto simp: fuse_reply_sent)
qed

text \<open>
  Concrete runs: an OPEN of node 9 after the first OPEN of a session gets token 1, and
  an OPEN in a session whose counter points at live tokens skips them.
\<close>

lemma second_open_run:
  "handle_fuse_request android_lp64 P (session first_open) (request FUSE_OPEN 3 9) =
     Some \<lparr>continue = True,
           written = Some \<lparr>hdr = \<lparr>fuse_out_header.len = 32, error = 0,
                                  fuse_out_header.unique = 3\<rparr>,
                           vec0_len = 16, vec1_base = OpenOut \<lparr>fuse_open_out.fh = 1\<rparr>,
                           vec1_len = 16, iovcnt = 2\<rparr>,
           session = \<lparr>handles = [0 \<mapsto> 5, 1 \<mapsto> 9], handle_counter = 2\<rparr>,
           calls = []\<rparr>"
  by (simp add: handle_fuse_request_def handle_fuse_open_def next_handle.simps first_open_def
        request_def opcode_defs NUM_MAX_HANDLES_def Let_def replied_def invoke_handler_simp
        fuse_reply_def android_lp64_def)

lemma wrapped_open_run:
  "handle_fuse_request android_lp64 P wrapped_session (request FUSE_OPEN 3 9) =
     Some \<lparr>continue = True,
           written = Some \<lparr>hdr = \<lparr>fuse_out_header.len = 32, error = 0,
                                  fuse_out_header.unique = 3\<rparr>,
                           vec0_len = 16, vec1_base = OpenOut \<lparr>fuse_open_out.fh = 2\<rparr>,
                           vec1_len = 16, iovcnt = 2\<rparr>,
           session = \<lparr>handles = [0 \<mapsto> 5, 1 \<mapsto> 6, 2 \<mapsto> 9], handle_counter = 3\<rparr>,
           calls = []\<rparr>"
  by (simp add: handle_fuse_request_def handle_fuse_open_def next_handle.simps
        wrapped_session_def request_def opcode_defs NUM_MAX_HANDLES_def Let_def replied_def
        invoke_handler_simp fuse_reply_def android_lp64_def)

lemma first_open_run:
  "handle_fuse_request android_lp64 P new_AppFuse (request FUSE_OPEN 3 5) = Some first_open"
  by (simp add: handle_fuse_request_def handle_fuse_open_def next_handle.simps new_AppFuse_def
        request_def opcode_defs NUM_MAX_HANDLES_def Let_def replied_def invoke_handler_simp
        first_open_def android_lp64_def)

theorem handle_table_bounded_witness:
  "reachable android_lp64 (session first_open)
   \<and> card (dom (handles (session first_open))) \<le> 1024
   \<and> opcode (header (request FUSE_OPEN 3 9)) = FUSE_OPEN
   \<and> 1024 \<le> card (dom (handles full_session))
   \<and> (\<exists>w. handle_fuse_request android_lp64 no_files full_session (request FUSE_OPEN 3 9) =
             Some \<lparr>continue = True, written = Some w, session = full_session, calls = []\<rparr>
         \<and> error (hdr w) = - EMFILE
         \<and> vec1_len w = 0
         \<and> iovcnt w = 1
         \<and> vec0_len w = 16
         \<and> fuse_out_header.len (hdr w) = 16)
   \<and> card (dom (handles (session first_open))) < 1024
   \<and> (\<exists>d w t. handle_fuse_request android_lp64 no_files (session first_open)
                 (request FUSE_OPEN 3 9) = Some d
         \<and> continue d
         \<and> written d = Some w
         \<and> error (hdr w) = 0
         \<and> vec1_base w = OpenOut \<lparr>fuse_open_out.fh = ucast t\<rparr>
         \<and> vec1_len w = 16
         \<and> iovcnt w = 2
         \<and> vec0_len w = 16
         \<and> fuse_out_header.len (hdr w) = 32
         \<and> handles (session first_open) t = None
         \<and> handles (session d) = (handles (session first_open))(t \<mapsto> 9)
         \<and> t = 1)
   \<and> card (dom (handles wrapped_session)) < 1024
   \<and> (\<exists>d w t. handle_fuse_request android_lp64 no_files wrapped_session
                 (request FUSE_OPEN 3 9) = Some d
         \<and> written d = Some w
         \<and> error (hdr w) = 0
         \<and> vec1_base w = OpenOut \<lparr>fuse_open_out.fh = ucast t\<rparr>
         \<and> vec1_len w = 16
         \<and> iovcnt w = 2
         \<and> handles wrapped_session t = None
         \<and> handles (session d) = (handles wrapped_session)(t \<mapsto> 9)
         \<and> t = 2)"
proof -
  have r: "reachable android_lp64 (session first_open)"
    using reachable.step [OF reachable.init first_open_run [of no_files]] .
  have o: "opcode (header (request FUSE_OPEN 3 9)) = FUSE_OPEN"
    "fuse_in_header.nodeid (header (request FUSE_OPEN 3 9)) = 9"
    by (simp_all add: request_def)
  have c1: "card (dom (handles (session first_open))) = 1" by (simp add: first_open_def)
  have c2: "card (dom (handles wrapped_session)) = 2" by (simp add: wrapped_session_def)
  have k: "sizeof_fuse_out_header android_lp64 = 16" "sizeof_fuse_open_out android_lp64 = 16"
    by (simp_all add: android_lp64_def)
  have t1: "t = 1" if "ucast t = (1 :: u64)" for t :: u32
    using token_of_fh [of t 1] that by simp
  have t2: "t = 2" if "ucast t = (2 :: u64)" for t :: u32
    using token_of_fh [of t 2] that by simp
  show ?thesis
    using handle_table_bounded [of android_lp64 "session first_open" "request FUSE_OPEN 3 9"
                                   full_session no_files]
      handle_table_bounded [of android_lp64 "session first_open" "request FUSE_OPEN 3 9"
                                   "session first_open" no_files]
      handle_table_bounded [of android_lp64 "session first_open" "request FUSE_OPEN 3 9"
                                   wrapped_session no_files]
      second_open_run [of no_files] wrapped_open_run [of no_files]
      r o c1 c2 k card_full_session
    by (auto dest: t1 t2)
qed

subsection \<open>OPEN, READ and RELEASE\<close>


text \<open>The provider calls of a READ that passes both checks.\<close>

lemma handle_fuse_read_calls:
  assumes "unat (fuse_read_in.size_v inp) \<le> MAX_READ"
    and "handles s (ucast (fuse_read_in.fh inp)) = Some inode"
  shows "snd (snd (handle_fuse_read P s h inp)) =
           [GetFileSize (ucast inode),
            GetObjectBytes (ucast inode) (offset inp)
              (ucast (min (ucast (fuse_read_in.size_v inp))
                          (getFileSize P (ucast inode) - offset inp)))]"
  using assms
  by (simp add: handle_fuse_read_def get_object_bytes_def get_file_size_def Let_def
        split: option.splits prod.splits)

text \<open>
  C10. An OPEN on a table of fewer than 1024 entries is answered with reply code 0 and
  a token that was not in the table, whatever the node id of the request is; the token
  is sent as the payload segment of the reply. No provider call is made, and the
  outcome is the same for every provider. A READ that passes the size and handle checks
  is what first asks the provider for the file's size.
\<close>

theorem open_asks_no_provider:
  "(opcode (header req) = FUSE_OPEN \<and> card (dom (handles s)) < 1024 \<longrightarrow>
     (\<exists>d w t. handle_fuse_request K P s req = Some d
        \<and> continue d
        \<and> written d = Some w
        \<and> error (hdr w) = 0
        \<and> vec1_base w = OpenOut \<lparr>fuse_open_out.fh = ucast t\<rparr>
        \<and> vec1_len w = sizeof_fuse_open_out K
        \<and> iovcnt w = (if sizeof_fuse_open_out K = 0 then 1 else 2)
        \<and> vec0_len w = sizeof_fuse_out_header K
        \<and> fuse_out_header.len (hdr w) =
             of_nat (sizeof_fuse_open_out K + sizeof_fuse_out_header K)
        \<and> handles s t = None
        \<and> handles (session d) t = Some (fuse_in_header.nodeid (header req))
        \<and> calls d = []
        \<and> (\<forall>P'. handle_fuse_request K P' s req = Some d)))
   \<and> (opcode (header rd) = FUSE_READ
        \<and> unat (fuse_read_in.size_v (read_in rd)) \<le> MAX_READ
        \<and> handles s (ucast (fuse_read_in.fh (read_in rd))) = Some inode \<longrightarrow>
       (\<exists>d rest. handle_fuse_request K P s rd = Some d
          \<and> calls d = GetFileSize (ucast inode) # rest))"
proof (intro conjI impI)
  assume "opcode (header req) = FUSE_OPEN \<and> card (dom (handles s)) < 1024"
  then have op: "opcode (header req) = FUSE_OPEN"
    and free: "card (dom (handles s)) < NUM_MAX_HANDLES"
    by (simp_all add: NUM_MAX_HANDLES_def)
  from request_OPEN_free [OF op free, of K P] obtain t where
    d: "handle_fuse_request K P s req =
       Some \<lparr>continue = True,
             written = Some (fuse_reply K (ucast (fuse_in_header.unique (header req))) 0
                               (OpenOut \<lparr>fuse_open_out.fh = ucast t\<rparr>) (sizeof_fuse_open_out K)),
             session = \<lparr>handles = (handles s)(t \<mapsto> fuse_in_header.nodeid (header req)),
                        handle_counter = t + 1\<rparr>,
             calls = []\<rparr>"
    and t: "handles s t = None" by blast
  have "handle_fuse_request K P' s req = handle_fuse_request K P s req" for P'
    using op by (simp add: dispatch_OPEN)
  with d t show "\<exists>d w t. handle_fuse_request K P s req = Some d
        \<and> continue d
        \<and> written d = Some w
        \<and> error (hdr w) = 0
        \<and> vec1_base w = OpenOut \<lparr>fuse_open_out.fh = ucast t\<rparr>
        \<and> vec1_len w = sizeof_fuse_open_out K
        \<and> iovcnt w = (if sizeof_fuse_open_out K = 0 then 1 else 2)
        \<and> vec0_len w = sizeof_fuse_out_header K
        \<and> fuse_out_header.len (hdr w) =
             of_nat (sizeof_fuse_open_out K + sizeof_fuse_out_header K)
        \<and> handles s t = None
        \<and> handles (session d) t = Some (fuse_in_header.nodeid (header req))
        \<and> calls d = []
        \<and> (\<forall>P'. handle_fuse_request K P' s req = Some d)"
    by (auto simp: fuse_reply_sent)
next
  assume a: "opcode (header rd) = FUSE_READ
        \<and> unat (fuse_read_in.size_v (read_in rd)) \<le> MAX_READ
        \<and> handles s (ucast (fuse_read_in.fh (read_in rd))) = Some inode"
  then have "snd (snd (handle_fuse_read P s (header rd) (read_in rd))) =
           [GetFileSize (ucast inode),
            GetObjectBytes (ucast inode) (offset (read_in rd))
              (ucast (min (ucast (fuse_read_in.size_v (read_in rd)))
                          (getFileSize P (ucast inode) - offset (read_in rd))))]"
    by (simp add: handle_fuse_read_calls)
  with a show "\<exists>d rest. handle_fuse_request K P s rd = Some d
          \<and> calls d = GetFileSize (ucast inode) # rest"
    by (cases "handle_fuse_read P s (header rd) (read_in rd)")
       (simp add: dispatch_READ replied_def invoke_handler_simp)
qed

text \<open>Concrete runs of OPEN on the root, on node 0 and on a node no provider knows.\<close>

lemma open_any_node_run:
  "handle_fuse_request android_lp64 P (session first_open) (request FUSE_OPEN 3 nid) =
     Some \<lparr>continue = True,
           written = Some \<lparr>hdr = \<lparr>fuse_out_header.len = 32, error = 0,
                                  fuse_out_header.unique = 3\<rparr>,
                           vec0_len = 16, vec1_base = OpenOut \<lparr>fuse_open_out.fh = 1\<rparr>,
                           vec1_len = 16, iovcnt = 2\<rparr>,
           session = \<lparr>handles = [0 \<mapsto> 5, 1 \<mapsto> nid], handle_counter = 2\<rparr>,
           calls = []\<rparr>"
  by (simp add: handle_fuse_request_def handle_fuse_open_def next_handle.simps first_open_def
        request_def opcode_defs NUM_MAX_HANDLES_def Let_def replied_def invoke_handler_simp
        fuse_reply_def android_lp64_def)

theorem open_asks_no_provider_witness:
  "opcode (header (request FUSE_OPEN 3 1)) = FUSE_OPEN
   \<and> card (dom (handles (session first_open))) < 1024
   \<and> (\<exists>d w t. handle_fuse_request android_lp64 no_files (session first_open)
                (request FUSE_OPEN 3 1) = Some d
        \<and> continue d
        \<and> written d = Some w
        \<and> error (hdr w) = 0
        \<and> vec1_base w = OpenOut \<lparr>fuse_open_out.fh = ucast t\<rparr>
        \<and> vec1_len w = 16
        \<and> iovcnt w = 2
        \<and> vec0_len w = 16
        \<and> fuse_out_header.len (hdr w) = 32
        \<and> handles (session first_open) t = None
        \<and> handles (session d) t = Some 1
        \<and> calls d = []
        \<and> t = 1
        \<and> (\<forall>P'. handle_fuse_request android_lp64 P' (session first_open)
                   (request FUSE_OPEN 3 1) = Some d))
   \<and> opcode (header (request FUSE_OPEN 3 0)) = FUSE_OPEN
   \<and> (\<exists>d w t. handle_fuse_request android_lp64 no_files (session first_open)
                (request FUSE_OPEN 3 0) = Some d
        \<and> written d = Some w
        \<and> error (hdr w) = 0
        \<and> vec1_base w = OpenOut \<lparr>fuse_open_out.fh = ucast t\<rparr>
        \<and> vec1_len w = 16
        \<and> iovcnt w = 2
        \<and> handles (session d) t = Some 0
        \<and> calls d = [])
   \<and> opcode (header (read_request 0 0 4)) = FUSE_READ
   \<and> unat (fuse_read_in.size_v (read_in (read_request 0 0 4))) \<le> MAX_READ
   \<and> handles \<lparr>handles = [0 \<mapsto> 1], handle_counter = 1\<rparr>
        (ucast (fuse_read_in.fh (read_in (read_request 0 0 4)))) = Some 1
   \<and> (\<exists>d rest. handle_fuse_request android_lp64 no_files
                  \<lparr>handles = [0 \<mapsto> 1], handle_counter = 1\<rparr> (read_request 0 0 4) = Some d
          \<and> calls d = GetFileSize 1 # rest)"
proof -
  have o: "opcode (header (request FUSE_OPEN 3 1)) = FUSE_OPEN"
    "fuse_in_header.nodeid (header (request FUSE_OPEN 3 1)) = 1"
    "opcode (header (request FUSE_OPEN 3 0)) = FUSE_OPEN"
    "fuse_in_header.nodeid (header (request FUSE_OPEN 3 0)) = 0"
    by (simp_all add: request_def)
  have e: "card (dom (handles (session first_open))) < 1024" by (simp add: first_open_def)
  have k: "sizeof_fuse_out_header android_lp64 = 16" "sizeof_fuse_open_out android_lp64 = 16"
    by (simp_all add: android_lp64_def)
  have r: "opcode (header (read_request 0 0 4)) = FUSE_READ"
    "unat (fuse_read_in.size_v (read_in (read_request 0 0 4))) \<le> MAX_READ"
    "handles \<lparr>handles = [0 \<mapsto> 1], handle_counter = 1\<rparr>
        (ucast (fuse_read_in.fh (read_in (read_request 0 0 4)))) = Some 1"
    by (simp_all add: read_request_def request_def MAX_READ_def)
  have t1: "t = 1" if "ucast t = (1 :: u64)" for t :: u32
    using token_of_fh [of t 1] that by simp
  have root: "\<exists>d w t. handle_fuse_request android_lp64 no_files (session first_open)
                (request FUSE_OPEN 3 1) = Some d
        \<and> continue d
        \<and> written d = Some w
        \<and> error (hdr w) = 0
        \<and> vec1_base w = OpenOut \<lparr>fuse_open_out.fh = ucast t\<rparr>
        \<and> vec1_len w = 16
        \<and> iovcnt w = 2
        \<and> vec0_len w = 16
        \<and> fuse_out_header.len (hdr w) = 32
        \<and> handles (session first_open) t = None
        \<and> handles (session d) t = Some 1
        \<and> calls d = []
        \<and> t = 1
        \<and> (\<forall>P'. handle_fuse_request android_lp64 P' (session first_open)
                   (request FUSE_OPEN 3 1) = Some d)"
    using open_asks_no_provider [of "request FUSE_OPEN 3 1" "session first_open" android_lp64
            no_files, THEN conjunct1] open_any_node_run [of no_files 1] o e k
    by (auto dest: t1)
  have zero: "\<exists>d w t. handle_fuse_request android_lp64 no_files (session first_open)
                (request FUSE_OPEN 3 0) = Some d
        \<and> written d = Some w
        \<and> error (hdr w) = 0
        \<and> vec1_base w = OpenOut \<lparr>fuse_open_out.fh = ucast t\<rparr>
        \<and> vec1_len w = 16
        \<and> iovcnt w = 2
        \<and> handles (session d) t = Some 0
        \<and> calls d = []"
    using open_asks_no_provider [of "request FUSE_OPEN 3 0" "session first_open" android_lp64
            no_files, THEN conjunct1] o e k
    by auto
  have rd: "\<exists>d rest. handle_fuse_request android_lp64 no_files
                  \<lparr>handles = [0 \<mapsto> 1], handle_counter = 1\<rparr> (read_request 0 0 4) = Some d
          \<and> calls d = GetFileSize 1 # rest"
    using open_asks_no_provider [of _ "\<lparr>handles = [0 \<mapsto> 1], handle_counter = 1\<rparr>"
            android_lp64 no_files "read_request 0 0 4" 1, THEN conjunct2] r
    by simp
  from root zero rd o(1,3) e r show ?thesis by (intro conjI)
qed




subsection \<open>The loop\<close>

lemma fuse_loop_total: "fuse_loop K s reads \<noteq> None"
proof (induction reads arbitrary: s)
  case Nil
  show ?case by simp
next
  case (Cons r rest)
  obtain P rr where r: "r = (P, rr)" by (cases r)
  show ?case
  proof (cases rr)
    case (ReadFailed errno)
    with r Cons.IH [of s] show ?thesis by simp
  next
    case (ReadOk nread request)
    obtain d where d: "handle_fuse_request K P s request = Some d"
      using handle_fuse_request_total [of K P s request] by blast
    obtain run where "fuse_loop K (session d) rest = Some run"
      using Cons.IH [of "session d"] by blast
    with r ReadOk d Cons.IH [of s] show ?thesis by simp
  qed
qed

lemma request_continues:
  assumes "opcode (header req) \<noteq> FUSE_FORGET"
  shows "\<exists>d w. handle_fuse_request K P s req = Some d \<and> continue d \<and> written d = Some w"
proof (cases rule: dispatch_cases [of req])
  case 4
  with assms show ?thesis by simp
next
  case 5
  obtain r s' where "handle_fuse_open K s (header req) = Some (r, s')"
    using handle_fuse_open_total [of K s "header req"]
    by (cases "handle_fuse_open K s (header req)") auto
  with 5 show ?thesis by (simp add: dispatch_OPEN replied_def)
qed (simp_all add: dispatch_LOOKUP dispatch_INIT dispatch_GETATTR dispatch_READ
       dispatch_RELEASE dispatch_FLUSH dispatch_default replied_def)

text \<open>Whatever the loop is fed, it ends in a session the dispatcher can reach.\<close>

lemma fuse_loop_reachable:
  assumes "reachable K s" "fuse_loop K s reads = Some run"
  shows "reachable K (final run)"
  using assms
proof (induction reads arbitrary: s run)
  case Nil
  then show ?case by auto
next
  case (Cons r rest)
  obtain P rr where r: "r = (P, rr)" by (cases r)
  show ?case
  proof (cases rr)
    case (ReadFailed errno)
    with r Cons show ?thesis by (auto split: if_splits)
  next
    case (ReadOk nread request)
    show ?thesis
    proof (cases "nread < sizeof_fuse_in_header K
                  \<or> unat (fuse_in_header.len (header request)) \<noteq> nread")
      case True
      with r ReadOk Cons show ?thesis by (auto split: if_splits)
    next
      case False
      obtain d where d: "handle_fuse_request K P s request = Some d"
        using handle_fuse_request_total [of K P s request] by blast
      from Cons.prems(1) d have next_ok: "reachable K (session d)" by (rule reachable.step)
      show ?thesis
      proof (cases "continue d")
        case stop: False
        with r ReadOk False d Cons.prems(2)
        have "run = \<lparr>result = Returned True, replies = [], final = session d\<rparr>" by auto
        with next_ok show ?thesis by simp
      next
        case True
        obtain run' where run': "fuse_loop K (session d) rest = Some run'"
          using fuse_loop_total [of K "session d" rest] by blast
        with r ReadOk False d True Cons.prems(2)
        have "final run = final run'" by auto
        with Cons.IH [OF next_ok run'] show ?thesis by simp
      qed
    qed
  qed
qed

lemma loop_session_bounded:
  assumes "com_android_mtp_AppFuse_start_app_fuse_loop K reads = Some run"
  shows "card (dom (handles (final run))) \<le> NUM_MAX_HANDLES"
proof -
  from assms have "fuse_loop K new_AppFuse reads = Some run"
    by (simp add: com_android_mtp_AppFuse_start_app_fuse_loop_def)
  from fuse_loop_reachable [OF reachable.init this] show ?thesis by (rule reachable_bound)
qed

text \<open>
  Every reply the dispatcher writes is framed by \<^verbatim>\<open>fuse_reply\<close>: the header segment
  is always handed to \<^verbatim>\<open>writev\<close>, the payload segment exactly when it is not empty,
  and the header's \<open>len\<close> counts both.
\<close>

lemma fuse_reply_framed:
  "vec0_len (fuse_reply K u code d n) = sizeof_fuse_out_header K
   \<and> iovcnt (fuse_reply K u code d n) = (if vec1_len (fuse_reply K u code d n) = 0 then 1 else 2)
   \<and> fuse_out_header.len (hdr (fuse_reply K u code d n)) =
        of_nat (vec1_len (fuse_reply K u code d n) + sizeof_fuse_out_header K)
   \<and> (error (hdr (fuse_reply K u code d n)) \<noteq> 0 \<longrightarrow> vec1_len (fuse_reply K u code d n) = 0)"
  by (simp add: fuse_reply_def Let_def)

lemma written_framed:
  assumes "handle_fuse_request K P s req = Some d" "written d = Some w"
  shows "vec0_len w = sizeof_fuse_out_header K
   \<and> iovcnt w = (if vec1_len w = 0 then 1 else 2)
   \<and> fuse_out_header.len (hdr w) = of_nat (vec1_len w + sizeof_fuse_out_header K)
   \<and> (error (hdr w) \<noteq> 0 \<longrightarrow> vec1_len w = 0)"
proof (cases rule: dispatch_cases [of req])
  case 1
  with assms show ?thesis
    by (cases "handle_fuse_lookup K P (header req) (name req)")
       (auto simp: dispatch_LOOKUP replied_def invoke_handler_simp fuse_reply_sent
          split: if_splits)
next
  case 2
  with assms show ?thesis
    by (cases "handle_fuse_init K (header req) (init_in req)")
       (auto simp: dispatch_INIT replied_def invoke_handler_simp fuse_reply_sent
          split: if_splits)
next
  case 3
  with assms show ?thesis
    by (cases "handle_fuse_getattr K P (header req)")
       (auto simp: dispatch_GETATTR replied_def invoke_handler_simp fuse_reply_sent
          split: if_splits)
next
  case 4
  with assms show ?thesis by (auto simp: dispatch_FORGET)
next
  case 5
  with assms show ?thesis
    by (cases "handle_fuse_open K s (header req)")
       (auto simp: dispatch_OPEN replied_def invoke_handler_simp fuse_reply_sent
          split: if_splits)
next
  case 6
  with assms show ?thesis
    by (cases "handle_fuse_read P s (header req) (read_in req)")
       (auto simp: dispatch_READ replied_def invoke_handler_simp fuse_reply_sent
          split: if_splits)
next
  case 7
  with assms show ?thesis by (auto simp: request_RELEASE fuse_reply_sent split: if_splits)
next
  case 8
  with assms show ?thesis
    by (auto simp: dispatch_FLUSH replied_def invoke_handler_simp handle_fuse_flush_def
          fuse_reply_sent split: if_splits)
next
  case 9
  with assms show ?thesis by (auto simp: dispatch_default replied_def fuse_reply_sent split: if_splits)
qed

text \<open>
  C8. For a frame that passes the two length checks: FORGET makes the dispatcher write
  no reply and return false, and the loop returns true with nothing written. An opcode
  outside the eight the dispatcher knows is answered function-not-implemented, as a
  reply of the header alone, and the loop goes on. Every opcode other than FORGET is
  answered with a reply whose header segment is written, and the loop goes on with the
  next read, that reply being the first of the run. A read that fails with
  no-such-device makes the loop return false.
\<close>

theorem forget_ends_the_loop:
  "(opcode (header req) = FUSE_FORGET \<longrightarrow>
      handle_fuse_request K P s req =
        Some \<lparr>continue = False, written = None, session = s, calls = []\<rparr>)
   \<and> (opcode (header req) = FUSE_FORGET \<and> sizeof_fuse_in_header K \<le> n
        \<and> unat (fuse_in_header.len (header req)) = n \<longrightarrow>
       fuse_loop K s ((P, ReadOk n req) # rest) =
         Some \<lparr>result = Returned True, replies = [], final = s\<rparr>)
   \<and> (opcode (header req) \<notin> supported \<longrightarrow>
        handle_fuse_request K P s req =
          Some \<lparr>continue = True,
                written = Some
                  \<lparr>hdr = \<lparr>fuse_out_header.len = of_nat (sizeof_fuse_out_header K),
                          error = - ENOSYS,
                          fuse_out_header.unique =
                            scast (ucast (fuse_in_header.unique (header req)) :: cint)\<rparr>,
                   vec0_len = sizeof_fuse_out_header K,
                   vec1_base = NullData, vec1_len = 0, iovcnt = 1\<rparr>,
                session = s, calls = []\<rparr>)
   \<and> (opcode (header req) \<noteq> FUSE_FORGET \<longrightarrow>
        (\<exists>d w. handle_fuse_request K P s req = Some d \<and> continue d \<and> written d = Some w
           \<and> vec0_len w = sizeof_fuse_out_header K
           \<and> iovcnt w = (if vec1_len w = 0 then 1 else 2)
           \<and> fuse_out_header.len (hdr w) = of_nat (vec1_len w + sizeof_fuse_out_header K)))
   \<and> (opcode (header req) \<noteq> FUSE_FORGET \<and> sizeof_fuse_in_header K \<le> n
        \<and> unat (fuse_in_header.len (header req)) = n \<longrightarrow>
        (\<exists>d w run. handle_fuse_request K P s req = Some d \<and> written d = Some w
           \<and> fuse_loop K (session d) rest = Some run
           \<and> fuse_loop K s ((P, ReadOk n req) # rest) = Some (run\<lparr>replies := w # replies run\<rparr>)))
   \<and> fuse_loop K s ((P, ReadFailed ENODEV) # rest) =
        Some \<lparr>result = Returned False, replies = [], final = s\<rparr>"
proof (intro conjI impI)
  assume "opcode (header req) = FUSE_FORGET"
  then show "handle_fuse_request K P s req =
        Some \<lparr>continue = False, written = None, session = s, calls = []\<rparr>"
    by (rule dispatch_FORGET)
next
  assume "opcode (header req) = FUSE_FORGET \<and> sizeof_fuse_in_header K \<le> n
        \<and> unat (fuse_in_header.len (header req)) = n"
  then show "fuse_loop K s ((P, ReadOk n req) # rest) =
         Some \<lparr>result = Returned True, replies = [], final = s\<rparr>"
    by (simp add: dispatch_FORGET)
next
  assume "opcode (header req) \<notin> supported"
  then show "handle_fuse_request K P s req =
          Some \<lparr>continue = True,
                written = Some
                  \<lparr>hdr = \<lparr>fuse_out_header.len = of_nat (sizeof_fuse_out_header K),
                          error = - ENOSYS,
                          fuse_out_header.unique =
                            scast (ucast (fuse_in_header.unique (header req)) :: cint)\<rparr>,
                   vec0_len = sizeof_fuse_out_header K,
                   vec1_base = NullData, vec1_len = 0, iovcnt = 1\<rparr>,
                session = s, calls = []\<rparr>"
    by (simp add: dispatch_default replied_def fuse_reply_def ENOSYS_def)
next
  assume "opcode (header req) \<noteq> FUSE_FORGET"
  then obtain d w where d: "handle_fuse_request K P s req = Some d" "continue d" "written d = Some w"
    using request_continues [of req K P s] by blast
  with written_framed [OF d(1) d(3)]
  show "\<exists>d w. handle_fuse_request K P s req = Some d \<and> continue d \<and> written d = Some w
           \<and> vec0_len w = sizeof_fuse_out_header K
           \<and> iovcnt w = (if vec1_len w = 0 then 1 else 2)
           \<and> fuse_out_header.len (hdr w) = of_nat (vec1_len w + sizeof_fuse_out_header K)"
    by blast
next
  assume a: "opcode (header req) \<noteq> FUSE_FORGET \<and> sizeof_fuse_in_header K \<le> n
        \<and> unat (fuse_in_header.len (header req)) = n"
  then obtain d w where d: "handle_fuse_request K P s req = Some d" "continue d" "written d = Some w"
    using request_continues [of req K P s] by blast
  obtain run where run: "fuse_loop K (session d) rest = Some run"
    using fuse_loop_total [of K "session d" rest] by blast
  from a d run have "fuse_loop K s ((P, ReadOk n req) # rest) = Some (run\<lparr>replies := w # replies run\<rparr>)"
    by simp
  with d run show "\<exists>d w run. handle_fuse_request K P s req = Some d \<and> written d = Some w
           \<and> fuse_loop K (session d) rest = Some run
           \<and> fuse_loop K s ((P, ReadOk n req) # rest) = Some (run\<lparr>replies := w # replies run\<rparr>)"
    by blast
next
  show "fuse_loop K s ((P, ReadFailed ENODEV) # rest) =
        Some \<lparr>result = Returned False, replies = [], final = s\<rparr>"
    by simp
qed

theorem forget_ends_the_loop_witness:
  "opcode (header (request FUSE_FORGET 6 0)) = FUSE_FORGET
   \<and> sizeof_fuse_in_header android_lp64 \<le> 40
   \<and> unat (fuse_in_header.len (header (request FUSE_FORGET 6 0))) = 40
   \<and> handle_fuse_request android_lp64 no_files (session first_open) (request FUSE_FORGET 6 0) =
        Some \<lparr>continue = False, written = None, session = session first_open, calls = []\<rparr>
   \<and> fuse_loop android_lp64 (session first_open)
         [(no_files, ReadOk 40 (request FUSE_FORGET 6 0))] =
        Some \<lparr>result = Returned True, replies = [], final = session first_open\<rparr>
   \<and> opcode (header (request 16 7 0)) \<notin> supported
   \<and> opcode (header (request 16 7 0)) \<noteq> FUSE_FORGET
   \<and> unat (fuse_in_header.len (header (request 16 7 0))) = 40
   \<and> handle_fuse_request android_lp64 no_files (session first_open) (request 16 7 0) =
        Some \<lparr>continue = True,
              written = Some \<lparr>hdr = \<lparr>fuse_out_header.len = 16, error = - 38,
                                     fuse_out_header.unique = 7\<rparr>,
                              vec0_len = 16, vec1_base = NullData, vec1_len = 0, iovcnt = 1\<rparr>,
              session = session first_open, calls = []\<rparr>
   \<and> fuse_loop android_lp64 (session first_open)
         [(no_files, ReadOk 40 (request 16 7 0)), (no_files, ReadFailed ENODEV)] =
        Some \<lparr>result = Returned False,
              replies = [\<lparr>hdr = \<lparr>fuse_out_header.len = 16, error = - 38,
                                fuse_out_header.unique = 7\<rparr>,
                         vec0_len = 16, vec1_base = NullData, vec1_len = 0, iovcnt = 1\<rparr>],
              final = session first_open\<rparr>
   \<and> fuse_loop android_lp64 (session first_open) [(no_files, ReadFailed ENODEV)] =
        Some \<lparr>result = Returned False, replies = [], final = session first_open\<rparr>"
proof -
  have f: "opcode (header (request FUSE_FORGET 6 0)) = FUSE_FORGET"
    "unat (fuse_in_header.len (header (request FUSE_FORGET 6 0))) = 40"
    "sizeof_fuse_in_header android_lp64 \<le> 40"
    by (simp_all add: request_def android_lp64_def)
  have u: "opcode (header (request 16 7 0)) \<notin> supported"
    "opcode (header (request 16 7 0)) \<noteq> FUSE_FORGET"
    "unat (fuse_in_header.len (header (request 16 7 0))) = 40"
    "fuse_in_header.unique (header (request 16 7 0)) = 7"
    by (simp_all add: request_def supported_def opcode_defs)
  have k: "sizeof_fuse_out_header android_lp64 = 16" "ENOSYS = 38"
    by (simp_all add: android_lp64_def ENOSYS_def)
  note forget = forget_ends_the_loop [of "request FUSE_FORGET 6 0" android_lp64 no_files
      "session first_open" 40 "[]"]
  note other = forget_ends_the_loop [of "request 16 7 0" android_lp64 no_files
      "session first_open" 40 "[(no_files, ReadFailed ENODEV)]"]
  note gone = forget_ends_the_loop [of "request 16 7 0" android_lp64 no_files
      "session first_open" 40 "[]"]
  from forget f have A: "handle_fuse_request android_lp64 no_files (session first_open)
        (request FUSE_FORGET 6 0) =
        Some \<lparr>continue = False, written = None, session = session first_open, calls = []\<rparr>"
    and B: "fuse_loop android_lp64 (session first_open)
         [(no_files, ReadOk 40 (request FUSE_FORGET 6 0))] =
        Some \<lparr>result = Returned True, replies = [], final = session first_open\<rparr>"
    by simp_all
  from other u k have C: "handle_fuse_request android_lp64 no_files (session first_open)
        (request 16 7 0) =
        Some \<lparr>continue = True,
              written = Some \<lparr>hdr = \<lparr>fuse_out_header.len = 16, error = - 38,
                                     fuse_out_header.unique = 7\<rparr>,
                              vec0_len = 16, vec1_base = NullData, vec1_len = 0, iovcnt = 1\<rparr>,
              session = session first_open, calls = []\<rparr>"
    by simp
  from gone have E: "fuse_loop android_lp64 (session first_open) [(no_files, ReadFailed ENODEV)] =
        Some \<lparr>result = Returned False, replies = [], final = session first_open\<rparr>"
    by simp
  from other u f(3) C E have D: "fuse_loop android_lp64 (session first_open)
         [(no_files, ReadOk 40 (request 16 7 0)), (no_files, ReadFailed ENODEV)] =
        Some \<lparr>result = Returned False,
              replies = [\<lparr>hdr = \<lparr>fuse_out_header.len = 16, error = - 38,
                                fuse_out_header.unique = 7\<rparr>,
                         vec0_len = 16, vec1_base = NullData, vec1_len = 0, iovcnt = 1\<rparr>],
              final = session first_open\<rparr>"
    by auto
  from A B C D E f u(1-3) show ?thesis by (intro conjI)
qed

subsection \<open>The unique of a reply\<close>

text \<open>
  Every reply carries the request's \<open>unique\<close> after its passage through the \<^verbatim>\<open>int\<close>
  parameter of \<^verbatim>\<open>fuse_reply\<close>: the low 32 bits, sign-extended.
\<close>

lemma reply_unique:
  assumes "handle_fuse_request K P s req = Some d" "written d = Some w"
  shows "fuse_out_header.unique (hdr w) =
           scast (ucast (fuse_in_header.unique (header req)) :: cint)"
proof (cases rule: dispatch_cases [of req])
  case 1
  with assms show ?thesis
    by (cases "handle_fuse_lookup K P (header req) (name req)")
       (auto simp: dispatch_LOOKUP replied_def invoke_handler_simp)
next
  case 2
  with assms show ?thesis
    by (cases "handle_fuse_init K (header req) (init_in req)")
       (auto simp: dispatch_INIT replied_def invoke_handler_simp)
next
  case 3
  with assms show ?thesis
    by (cases "handle_fuse_getattr K P (header req)")
       (auto simp: dispatch_GETATTR replied_def invoke_handler_simp)
next
  case 4
  with assms show ?thesis by (auto simp: dispatch_FORGET)
next
  case 5
  with assms show ?thesis
    by (cases "handle_fuse_open K s (header req)")
       (auto simp: dispatch_OPEN replied_def invoke_handler_simp)
next
  case 6
  with assms show ?thesis
    by (cases "handle_fuse_read P s (header req) (read_in req)")
       (auto simp: dispatch_READ replied_def invoke_handler_simp)
next
  case 7
  with assms show ?thesis
    by (auto simp: request_RELEASE)
next
  case 8
  with assms show ?thesis
    by (auto simp: dispatch_FLUSH replied_def invoke_handler_simp handle_fuse_flush_def)
next
  case 9
  with assms show ?thesis
    by (auto simp: dispatch_default replied_def)
qed

text \<open>
  C3, at a failing input. A FLUSH request with \<open>unique\<close> = 2^32 + 7 is answered with
  \<open>unique\<close> = 7, and one with \<open>unique\<close> = 2^31 with \<open>unique\<close> = 2^64 - 2^31: the reply
  does not carry the request's \<open>unique\<close>.
\<close>

theorem reply_unique_cut_to_int:
  "handle_fuse_request android_lp64 no_files new_AppFuse (request FUSE_FLUSH 0x100000007 0) =
     Some \<lparr>continue = True,
           written = Some \<lparr>hdr = \<lparr>fuse_out_header.len = 16, error = 0,
                                  fuse_out_header.unique = 7\<rparr>,
                           vec0_len = 16, vec1_base = Unwritten, vec1_len = 0, iovcnt = 1\<rparr>,
           session = new_AppFuse, calls = []\<rparr>
   \<and> fuse_in_header.unique (header (request FUSE_FLUSH 0x100000007 0)) = 0x100000007
   \<and> handle_fuse_request android_lp64 no_files new_AppFuse (request FUSE_FLUSH 0x80000000 0) =
     Some \<lparr>continue = True,
           written = Some \<lparr>hdr = \<lparr>fuse_out_header.len = 16, error = 0,
                                  fuse_out_header.unique = 0xFFFFFFFF80000000\<rparr>,
                           vec0_len = 16, vec1_base = Unwritten, vec1_len = 0, iovcnt = 1\<rparr>,
           session = new_AppFuse, calls = []\<rparr>
   \<and> fuse_in_header.unique (header (request FUSE_FLUSH 0x80000000 0)) = 0x80000000"
  by (simp add: handle_fuse_request_def request_def opcode_defs Let_def replied_def
        invoke_handler_simp handle_fuse_flush_def new_response_def fuse_reply_def
        android_lp64_def)

lemma reply_unique_small:
  assumes "handle_fuse_request K P s req = Some d" "written d = Some w"
    and "fuse_in_header.unique (header req) < 2 ^ 31"
  shows "fuse_out_header.unique (hdr w) = fuse_in_header.unique (header req)"
proof -
  let ?u = "fuse_in_header.unique (header req)"
  from assms(3) have t: "take_bit 31 ?u = ?u"
    by (simp add: mod_word_less take_bit_eq_mod)
  have "(scast (ucast (take_bit 31 ?u) :: cint) :: u64) = take_bit 31 ?u"
    by (rule bit_word_eqI) (auto simp: bit_simps min_def)
  with t reply_unique [OF assms(1,2)] show ?thesis by simp
qed

subsection \<open>The size a READ asks the provider for\<close>

lemma top_clear:
  fixes f :: int64_t
  assumes "\<not> bit f 63"
  shows "take_bit 63 (uint f) = uint f"
proof (rule bit_eqI)
  fix n :: nat
  show "bit (take_bit 63 (uint f)) n \<longleftrightarrow> bit (uint f) n"
  proof (cases "n < 63")
    case True
    then show ?thesis by (simp add: bit_simps)
  next
    case False
    have "\<not> bit f n"
    proof
      assume b: "bit f n"
      then have "n < 64" using bit_imp_le_length [of f n] by simp
      with False have "n = 63" by simp
      with b assms show False by simp
    qed
    with False show ?thesis by (simp add: bit_simps)
  qed
qed

lemma nonneg_sint:
  fixes f :: int64_t
  assumes "0 \<le> sint f"
  shows "sint f = uint f"
  using assms
  by (simp add: sint_uint signed_take_bit_eq_if_positive signed_take_bit_eq_if_negative
        top_clear bit_uint_iff split: if_splits)

lemma uint_min_word: "uint (min a b) = min (uint a) (uint (b :: 'a::len word))"
  by (simp add: min_def word_le_def)

lemma uint_widen: "uint (ucast (x :: u32) :: u64) = uint x"
  by (simp add: uint_up_ucast is_up)

lemma uint_narrow:
  fixes x :: u64 and sz :: u32
  assumes "uint x \<le> uint sz"
  shows "uint (ucast x :: u32) = uint x"
  using assms by (metis (mono_tags, lifting) le_unat_uoi of_nat_unat un_ui_le)

text \<open>
  Inside the file (a nonnegative file size and an offset not beyond it) the size
  computed by \<^verbatim>\<open>get_object_bytes\<close> is the effective size of the specification.
\<close>

lemma read_size_in_file:
  fixes sz :: u32 and fsize :: int64_t and offs :: u64
  assumes "0 \<le> sint fsize" "uint offs \<le> sint fsize"
  shows "uint (ucast (min (ucast sz :: u64) (fsize - offs)) :: u32) =
           spec_effective_size sz fsize offs"
proof -
  have f: "sint fsize = uint fsize" by (rule nonneg_sint) fact
  with assms(2) have "uint offs \<le> uint fsize" by simp
  then have d: "uint (fsize - offs) = uint fsize - uint offs"
    by (simp add: uint_sub_lem)
  have m: "uint (min (ucast sz :: u64) (fsize - offs)) = min (uint sz) (uint fsize - uint offs)"
    by (simp add: uint_min_word uint_widen d)
  then have "uint (min (ucast sz :: u64) (fsize - offs)) \<le> uint sz" by simp
  then have "uint (ucast (min (ucast sz :: u64) (fsize - offs)) :: u32) =
               uint (min (ucast sz :: u64) (fsize - offs))"
    by (rule uint_narrow)
  with m f assms(2) show ?thesis by (simp add: spec_effective_size_def max_def)
qed

text \<open>The size asked for never exceeds the size of the request.\<close>

lemma read_size_le:
  fixes sz :: u32 and x :: u64
  shows "uint (ucast (min (ucast sz :: u64) x) :: u32) \<le> uint sz"
proof -
  have "uint (min (ucast sz :: u64) x) \<le> uint sz"
    by (simp add: uint_min_word uint_widen)
  moreover from this have "uint (ucast (min (ucast sz :: u64) x) :: u32) =
      uint (min (ucast sz :: u64) x)"
    by (rule uint_narrow)
  ultimately show ?thesis by simp
qed

lemma sint_widen: "sint (ucast (x :: u32) :: u64) = uint x"
proof -
  have "\<not> bit (ucast x :: u64) 63"
    using bit_imp_le_length [of x 63] by (auto simp: bit_simps)
  then have "0 \<le> sint (ucast x :: u64)"
    by (simp add: sint_uint signed_take_bit_eq_if_positive bit_uint_iff)
  then have "sint (ucast x :: u64) = uint (ucast x :: u64)" by (rule nonneg_sint)
  then show ?thesis by (simp add: uint_widen)
qed

lemma unat_widen: "unat (ucast (x :: u32) :: u64) = unat x"
  using uint_widen [of x] by (metis nat_uint_eq)

text \<open>
  A READ that passes the size and handle checks: what it asks the provider, and what
  it replies for each answer of the provider.
\<close>

lemma handle_fuse_read_served:
  assumes "unat (fuse_read_in.size_v inp) \<le> MAX_READ"
    and "handles s (ucast (fuse_read_in.fh inp)) = Some inode"
    and "rs = ucast (min (ucast (fuse_read_in.size_v inp))
                         (getFileSize P (ucast inode) - offset inp))"
  shows "handle_fuse_read P s h inp =
           (case getObjectBytes P (ucast inode) (offset inp) rs of
              None \<Rightarrow>
                (- EIO, \<lparr>response_size = 0, buffer = Unwritten\<rparr>,
                 [GetFileSize (ucast inode), GetObjectBytes (ucast inode) (offset inp) rs])
            | Some a \<Rightarrow>
                if length (elements a) \<noteq> unat rs \<or> \<not> pinned a
                then (- EIO, \<lparr>response_size = 0, buffer = Unwritten\<rparr>,
                      [GetFileSize (ucast inode), GetObjectBytes (ucast inode) (offset inp) rs])
                else (0, \<lparr>response_size = unat rs, buffer = Bytes (elements a)\<rparr>,
                      [GetFileSize (ucast inode), GetObjectBytes (ucast inode) (offset inp) rs]))"
proof -
  have "\<not> sint (ucast rs :: u64) < 0" by (simp add: sint_widen)
  with assms show ?thesis
    by (simp add: handle_fuse_read_def get_object_bytes_def get_file_size_def Let_def
          unat_widen split: option.splits)
qed

text \<open>
  C1, at failing inputs. In the session after an OPEN of node 5, whose file has ten
  bytes, a READ of 4 bytes at offset 11 asks the provider for 4 bytes and replies with
  the 4 bytes it gets; the effective size of the specification is 0 there. On a provider
  that does not know the file (size - 1) a READ of 4 bytes at offset 0 asks for 4 bytes
  as well.
\<close>

theorem read_beyond_end_asks_for_bytes:
  "handle_fuse_request android_lp64 ten_bytes (session first_open) (read_request 0 11 4) =
     Some \<lparr>continue = True,
           written = Some \<lparr>hdr = \<lparr>fuse_out_header.len = 20, error = 0,
                                  fuse_out_header.unique = 4\<rparr>,
                           vec0_len = 16, vec1_base = Bytes (replicate 4 0x41),
                           vec1_len = 4, iovcnt = 2\<rparr>,
           session = session first_open,
           calls = [GetFileSize 5, GetObjectBytes 5 11 4]\<rparr>
   \<and> spec_effective_size 4 (getFileSize ten_bytes 5) 11 = 0
   \<and> calls (the (handle_fuse_request android_lp64 no_files (session first_open)
                     (read_request 0 0 4))) =
        [GetFileSize 5, GetObjectBytes 5 0 4]
   \<and> spec_effective_size 4 (getFileSize no_files 5) 0 = 0"
  by (simp add: handle_fuse_request_def read_request_def request_def opcode_defs Let_def
        replied_def invoke_handler_simp handle_fuse_read_def get_object_bytes_def
        get_file_size_def fuse_reply_def android_lp64_def first_open_def ten_bytes_def
        no_files_def MAX_READ_def spec_effective_size_def EIO_def)

subsection \<open>LOOKUP\<close>

lemma digits_value_foldl:
  "digits_value acc cs =
     foldl (\<lambda>a c. a * 10 + (of_char c - 48)) acc (takeWhile isdigit cs)"
  by (induction cs arbitrary: acc) auto

lemma signed_value_prefix:
  "signed_value r = (case integer_prefix r of None \<Rightarrow> 0 | Some v \<Rightarrow> v)"
proof (cases r)
  case Nil
  then show ?thesis by (simp add: integer_prefix_def)
next
  case (Cons c cs)
  have "\<not> isdigit CHR ''-''" "\<not> isdigit CHR ''+''" by (simp_all add: isdigit_def)
  with Cons show ?thesis
    by (auto simp: integer_prefix_def digits_value_foldl Let_def)
qed

text \<open>
  \<open>atoi\<close> returns the leading integer wherever it fits an \<^verbatim>\<open>int\<close>, and 0 when
  there is none.
\<close>

lemma atoi_leading_integer:
  "atoi K nm =
     (case leading_integer nm of
        None \<Rightarrow> 0
      | Some v \<Rightarrow> if - (2 ^ 31) \<le> v \<and> v < 2 ^ 31 then word_of_int v
                  else atoi_out_of_range K nm)"
  by (simp add: atoi_def leading_integer_def signed_value_prefix Let_def split: option.splits)

lemma atoi_no_integer:
  "leading_integer nm = None \<or> leading_integer nm = Some 0 \<Longrightarrow> atoi K nm = 0"
  by (auto simp: atoi_leading_integer)

lemma request_LOOKUP_rejected:
  assumes "opcode (header req) = FUSE_LOOKUP"
    and "fuse_in_header.nodeid (header req) \<noteq> 1 \<or> atoi K (name req) = 0"
  shows "handle_fuse_request K P s req =
           Some \<lparr>continue = True,
                 written = Some (fuse_reply K (ucast (fuse_in_header.unique (header req)))
                                   (- ENOENT) Unwritten 0),
                 session = s, calls = []\<rparr>"
  using assms
  by (auto simp: dispatch_LOOKUP handle_fuse_lookup_def replied_def invoke_handler_simp
        new_response_def)

lemma request_LOOKUP_asked:
  assumes "opcode (header req) = FUSE_LOOKUP"
    and "fuse_in_header.nodeid (header req) = 1" "atoi K (name req) \<noteq> 0"
  shows "\<exists>w. handle_fuse_request K P s req =
           Some \<lparr>continue = True, written = Some w, session = s,
                 calls = [GetFileSize (atoi K (name req))]\<rparr>
         \<and> error (hdr w) = (if sint (getFileSize P (atoi K (name req))) < 0 then - ENOENT else 0)"
  using assms
  by (simp add: dispatch_LOOKUP handle_fuse_lookup_def replied_def invoke_handler_simp
        new_response_def get_file_size_def Let_def)

text \<open>
  Under node 1, a name that begins with a nonzero integer that fits an \<^verbatim>\<open>int\<close>,
  negative or not, is passed to the provider once, and the reply is
  no-such-file-or-directory exactly when the size returned is negative.
\<close>

lemma word_of_int_nonzero:
  fixes v :: int
  assumes "v \<noteq> 0" "- (2 ^ 31) \<le> v" "v < 2 ^ 31"
  shows "(word_of_int v :: cint) \<noteq> 0"
proof
  assume "(word_of_int v :: cint) = 0"
  then have "(2 :: int) ^ 32 dvd v" by (simp add: word_of_int_eq_0_iff)
  then have "(2 :: int) ^ 32 dvd \<bar>v\<bar>" by simp
  moreover from assms(1) have "0 < \<bar>v\<bar>" by simp
  ultimately have "(2 :: int) ^ 32 \<le> \<bar>v\<bar>" by (rule zdvd_imp_le)
  with assms(2,3) show False by simp
qed

lemma request_LOOKUP_integer:
  assumes "opcode (header req) = FUSE_LOOKUP"
    and "fuse_in_header.nodeid (header req) = 1"
    and "leading_integer (name req) = Some v" "v \<noteq> 0" "- (2 ^ 31) \<le> v" "v < 2 ^ 31"
  shows "\<exists>w. handle_fuse_request K P s req =
           Some \<lparr>continue = True, written = Some w, session = s,
                 calls = [GetFileSize (word_of_int v)]\<rparr>
         \<and> error (hdr w) = (if sint (getFileSize P (word_of_int v)) < 0 then - ENOENT else 0)"
proof -
  from assms(3,5,6) have a: "atoi K (name req) = word_of_int v"
    by (simp add: atoi_leading_integer)
  with word_of_int_nonzero [OF assms(4,5,6)] have "atoi K (name req) \<noteq> 0" by simp
  from request_LOOKUP_asked [OF assms(1,2) this, of P s] a show ?thesis by simp
qed

text \<open>
  C2, as the claim states it, fails in two ways. The name ``-5'' under the root is a
  decimal integer less than 0, yet the provider is asked for the size of - 5, and
  with a provider that reports a size the reply code is 0. The name ``5x'' is not a
  decimal integer, yet it is read as 5, the provider is asked for the size of 5 and
  the reply code is 0 again.
\<close>

theorem lookup_names_counterexample:
  "opcode (header (lookup_request 1 ''-5'')) = FUSE_LOOKUP
   \<and> fuse_in_header.nodeid (header (lookup_request 1 ''-5'')) = 1
   \<and> decimal_integer (name (lookup_request 1 ''-5''))
   \<and> leading_integer (name (lookup_request 1 ''-5'')) = Some (- 5)
   \<and> handle_fuse_request android_lp64 ten_bytes new_AppFuse (lookup_request 1 ''-5'') =
       Some \<lparr>continue = True,
             written = Some
               \<lparr>hdr = \<lparr>fuse_out_header.len = 144, error = 0, fuse_out_header.unique = 8\<rparr>,
                vec0_len = 16,
                vec1_base = EntryOut
                  \<lparr>fuse_entry_out.nodeid = 0xFFFFFFFFFFFFFFFB, entry_valid = 10,
                   fuse_entry_out.attr_valid = 10,
                   fuse_entry_out.attr = \<lparr>ino = 0xFFFFFFFFFFFFFFFB, fuse_attr.size_v = 10,
                                          mode = 0x81FF\<rparr>\<rparr>,
                vec1_len = 128, iovcnt = 2\<rparr>,
             session = new_AppFuse,
             calls = [GetFileSize (- 5)]\<rparr>
   \<and> opcode (header (lookup_request 1 ''5x'')) = FUSE_LOOKUP
   \<and> fuse_in_header.nodeid (header (lookup_request 1 ''5x'')) = 1
   \<and> \<not> decimal_integer (name (lookup_request 1 ''5x''))
   \<and> handle_fuse_request android_lp64 ten_bytes new_AppFuse (lookup_request 1 ''5x'') =
       Some \<lparr>continue = True,
             written = Some
               \<lparr>hdr = \<lparr>fuse_out_header.len = 144, error = 0, fuse_out_header.unique = 8\<rparr>,
                vec0_len = 16,
                vec1_base = EntryOut
                  \<lparr>fuse_entry_out.nodeid = 5, entry_valid = 10,
                   fuse_entry_out.attr_valid = 10,
                   fuse_entry_out.attr = \<lparr>ino = 5, fuse_attr.size_v = 10, mode = 0x81FF\<rparr>\<rparr>,
                vec1_len = 128, iovcnt = 2\<rparr>,
             session = new_AppFuse,
             calls = [GetFileSize 5]\<rparr>
   \<and> (0 :: cint) \<noteq> - ENOENT"
  by (simp add: handle_fuse_request_def lookup_request_def request_def opcode_defs Let_def
        replied_def invoke_handler_simp handle_fuse_lookup_def get_file_size_def
        fuse_reply_def android_lp64_def ten_bytes_def atoi_def isspace_def isdigit_def
        S_IFREG_def ENOENT_def decimal_integer_def leading_integer_def integer_prefix_def)

text \<open>
  C2, amended. A LOOKUP whose parent is not node 1, or whose name does not begin with
  a decimal integer (white space, an optional sign, then at least one digit; what
  follows the digits is ignored), or whose name begins with an integer that is 0, is
  answered no-such-file-or-directory, as a reply of the header alone, without a call
  to the provider.
\<close>

theorem lookup_rejects_without_asking:
  "opcode (header req) = FUSE_LOOKUP \<Longrightarrow>
   fuse_in_header.nodeid (header req) \<noteq> 1
     \<or> leading_integer (name req) = None
     \<or> leading_integer (name req) = Some 0 \<Longrightarrow>
   \<exists>w. handle_fuse_request K P s req =
         Some \<lparr>continue = True, written = Some w, session = s, calls = []\<rparr>
     \<and> error (hdr w) = - ENOENT
     \<and> vec1_len w = 0
     \<and> iovcnt w = 1
     \<and> vec0_len w = sizeof_fuse_out_header K
     \<and> fuse_out_header.len (hdr w) = of_nat (sizeof_fuse_out_header K)"
proof -
  assume op: "opcode (header req) = FUSE_LOOKUP"
  assume "fuse_in_header.nodeid (header req) \<noteq> 1
     \<or> leading_integer (name req) = None
     \<or> leading_integer (name req) = Some 0"
  then have "fuse_in_header.nodeid (header req) \<noteq> 1 \<or> atoi K (name req) = 0"
    using atoi_no_integer [of "name req" K] by blast
  from request_LOOKUP_rejected [OF op this, of P s] show ?thesis
    by (simp add: fuse_reply_sent ENOENT_def)
qed

theorem lookup_rejects_without_asking_witness:
  "opcode (header (lookup_request 2 ''42'')) = FUSE_LOOKUP
   \<and> fuse_in_header.nodeid (header (lookup_request 2 ''42'')) \<noteq> 1
   \<and> (\<exists>w. handle_fuse_request android_lp64 ten_bytes new_AppFuse (lookup_request 2 ''42'') =
             Some \<lparr>continue = True, written = Some w, session = new_AppFuse, calls = []\<rparr>
         \<and> error (hdr w) = - ENOENT \<and> vec1_len w = 0 \<and> iovcnt w = 1
         \<and> vec0_len w = 16 \<and> fuse_out_header.len (hdr w) = 16)
   \<and> opcode (header (lookup_request 1 ''abc'')) = FUSE_LOOKUP
   \<and> leading_integer (name (lookup_request 1 ''abc'')) = None
   \<and> (\<exists>w. handle_fuse_request android_lp64 ten_bytes new_AppFuse (lookup_request 1 ''abc'') =
             Some \<lparr>continue = True, written = Some w, session = new_AppFuse, calls = []\<rparr>
         \<and> error (hdr w) = - ENOENT \<and> vec1_len w = 0 \<and> iovcnt w = 1
         \<and> vec0_len w = 16 \<and> fuse_out_header.len (hdr w) = 16)
   \<and> opcode (header (lookup_request 1 ''-'')) = FUSE_LOOKUP
   \<and> leading_integer (name (lookup_request 1 ''-'')) = None
   \<and> (\<exists>w. handle_fuse_request android_lp64 ten_bytes new_AppFuse (lookup_request 1 ''-'') =
             Some \<lparr>continue = True, written = Some w, session = new_AppFuse, calls = []\<rparr>
         \<and> error (hdr w) = - ENOENT \<and> vec1_len w = 0 \<and> iovcnt w = 1
         \<and> vec0_len w = 16 \<and> fuse_out_header.len (hdr w) = 16)
   \<and> opcode (header (lookup_request 1 ''0'')) = FUSE_LOOKUP
   \<and> leading_integer (name (lookup_request 1 ''0'')) = Some 0
   \<and> (\<exists>w. handle_fuse_request android_lp64 ten_bytes new_AppFuse (lookup_request 1 ''0'') =
             Some \<lparr>continue = True, written = Some w, session = new_AppFuse, calls = []\<rparr>
         \<and> error (hdr w) = - ENOENT \<and> vec1_len w = 0 \<and> iovcnt w = 1
         \<and> vec0_len w = 16 \<and> fuse_out_header.len (hdr w) = 16)"
proof -
  have a: "opcode (header (lookup_request 2 ''42'')) = FUSE_LOOKUP"
    "fuse_in_header.nodeid (header (lookup_request 2 ''42'')) \<noteq> 1"
    by (simp_all add: lookup_request_def request_def)
  have b: "opcode (header (lookup_request 1 ''abc'')) = FUSE_LOOKUP"
    "leading_integer (name (lookup_request 1 ''abc'')) = None"
    by (simp_all add: lookup_request_def request_def leading_integer_def integer_prefix_def
          isspace_def isdigit_def)
  have c: "opcode (header (lookup_request 1 ''-'')) = FUSE_LOOKUP"
    "leading_integer (name (lookup_request 1 ''-'')) = None"
    by (simp_all add: lookup_request_def request_def leading_integer_def integer_prefix_def
          isspace_def isdigit_def)
  have d: "opcode (header (lookup_request 1 ''0'')) = FUSE_LOOKUP"
    "leading_integer (name (lookup_request 1 ''0'')) = Some 0"
    by (simp_all add: lookup_request_def request_def leading_integer_def integer_prefix_def
          isspace_def isdigit_def)
  have k: "sizeof_fuse_out_header android_lp64 = 16" by (simp add: android_lp64_def)
  from a b c d
    lookup_rejects_without_asking [OF a(1), of android_lp64 ten_bytes new_AppFuse]
    lookup_rejects_without_asking [OF b(1), of android_lp64 ten_bytes new_AppFuse]
    lookup_rejects_without_asking [OF c(1), of android_lp64 ten_bytes new_AppFuse]
    lookup_rejects_without_asking [OF d(1), of android_lp64 ten_bytes new_AppFuse]
  show ?thesis by (simp add: k)
qed

subsection \<open>READ and the tokens of the table\<close>

lemma request_READ_rejected_size:
  assumes "opcode (header rd) = FUSE_READ"
    and "MAX_READ < unat (fuse_read_in.size_v (read_in rd))"
  shows "handle_fuse_request K P s rd =
           Some \<lparr>continue = True,
                 written = Some (fuse_reply K (ucast (fuse_in_header.unique (header rd)))
                                   (- EINVAL) Unwritten 0),
                 session = s, calls = []\<rparr>"
  using assms
  by (simp add: dispatch_READ handle_fuse_read_def replied_def invoke_handler_simp
        new_response_def)

lemma request_READ_rejected_handle:
  assumes "opcode (header rd) = FUSE_READ"
    and "unat (fuse_read_in.size_v (read_in rd)) \<le> MAX_READ"
    and "handles s (ucast (fuse_read_in.fh (read_in rd))) = None"
  shows "handle_fuse_request K P s rd =
           Some \<lparr>continue = True,
                 written = Some (fuse_reply K (ucast (fuse_in_header.unique (header rd)))
                                   (- EBADF) Unwritten 0),
                 session = s, calls = []\<rparr>"
  using assms
  by (simp add: dispatch_READ handle_fuse_read_def replied_def invoke_handler_simp
        new_response_def)

text \<open>
  A token that is not in the table stays out of it through every request except an
  OPEN that is answered with that very token.
\<close>

lemma request_keeps_absent:
  assumes d: "handle_fuse_request K P s req = Some d"
    and absent: "handles s k = None"
    and other: "\<And>w. written d = Some w \<Longrightarrow> vec1_base w \<noteq> OpenOut \<lparr>fuse_open_out.fh = ucast k\<rparr>"
  shows "handles (session d) k = None"
proof (cases "opcode (header req) = FUSE_OPEN")
  case True
  show ?thesis
  proof (cases "card (dom (handles s)) < NUM_MAX_HANDLES")
    case free: True
    from request_OPEN_free [OF True free, of K P] d obtain t where
      t: "written d = Some (fuse_reply K (ucast (fuse_in_header.unique (header req))) 0
                              (OpenOut \<lparr>fuse_open_out.fh = ucast t\<rparr>) (sizeof_fuse_open_out K))"
         "handles (session d) = (handles s)(t \<mapsto> fuse_in_header.nodeid (header req))"
      by auto
    from other [OF t(1)] have "t \<noteq> k" by auto
    with t(2) absent show ?thesis by simp
  next
    case False
    then have "NUM_MAX_HANDLES \<le> card (dom (handles s))" by simp
    from request_OPEN_full [OF True this, of K P] d absent show ?thesis by auto
  qed
next
  case False
  show ?thesis
  proof (cases "opcode (header req) = FUSE_RELEASE")
    case True
    from request_RELEASE [OF True, of K P s] d absent show ?thesis by auto
  next
    case rel: False
    from request_keeps_session [OF d False rel] absent show ?thesis by simp
  qed
qed

lemma fuse_loop_keeps_absent:
  assumes "fuse_loop K s reads = Some run"
    and "handles s k = None"
    and "OpenOut \<lparr>fuse_open_out.fh = ucast k\<rparr> \<notin> vec1_base ` set (replies run)"
  shows "handles (final run) k = None"
  using assms
proof (induction reads arbitrary: s run)
  case Nil
  then show ?case by auto
next
  case (Cons r rest)
  obtain P rr where r: "r = (P, rr)" by (cases r)
  show ?case
  proof (cases rr)
    case (ReadFailed errno)
    with r Cons show ?thesis by (auto split: if_splits)
  next
    case (ReadOk nread request)
    show ?thesis
    proof (cases "nread < sizeof_fuse_in_header K
                  \<or> unat (fuse_in_header.len (header request)) \<noteq> nread")
      case True
      with r ReadOk Cons show ?thesis by (auto split: if_splits)
    next
      case False
      obtain d where d: "handle_fuse_request K P s request = Some d"
        using handle_fuse_request_total [of K P s request] by blast
      show ?thesis
      proof (cases "continue d")
        case stop: False
        with r ReadOk False d Cons.prems(1) have "run = \<lparr>result = Returned True, replies = [], final = session d\<rparr>"
          by auto
        moreover from stop d have "session d = s"
          by (cases rule: dispatch_cases [of request])
             (auto simp: dispatch_LOOKUP dispatch_INIT dispatch_GETATTR dispatch_FORGET
                dispatch_READ dispatch_FLUSH dispatch_default dispatch_RELEASE dispatch_OPEN
                replied_def split: option.splits)
        ultimately show ?thesis using Cons.prems(2) by simp
      next
        case True
        obtain run' where run': "fuse_loop K (session d) rest = Some run'"
          using fuse_loop_total [of K "session d" rest] by blast
        with r ReadOk False d True Cons.prems(1)
        have run: "run = run'\<lparr>replies := (case written d of None \<Rightarrow> [] | Some w \<Rightarrow> [w]) @ replies run'\<rparr>"
          by auto
        with Cons.prems(3)
        have w: "\<And>w. written d = Some w \<Longrightarrow> vec1_base w \<noteq> OpenOut \<lparr>fuse_open_out.fh = ucast k\<rparr>"
          and rest: "OpenOut \<lparr>fuse_open_out.fh = ucast k\<rparr> \<notin> vec1_base ` set (replies run')"
          by (auto split: option.splits)
        from request_keeps_absent [OF d Cons.prems(2) w]
        have "handles (session d) k = None" by simp
        from Cons.IH [OF run' this rest] run show ?thesis by simp
      qed
    qed
  qed
qed

text \<open>
  C6, at a failing input. In the session after the first OPEN the only live token is
  0. The \<open>fh\<close> 2^32 is not that token, yet a READ with it is served through token 0
  and answered with reply code 0 and four bytes, not bad-file-descriptor; a RELEASE
  with it removes token 0.
\<close>

theorem read_wide_fh_is_served:
  "dom (handles (session first_open)) = {0}
   \<and> opcode (header (read_request 0x100000000 0 4)) = FUSE_READ
   \<and> fuse_read_in.fh (read_in (read_request 0x100000000 0 4)) = 0x100000000
   \<and> (0x100000000 :: u64) \<noteq> ucast (0 :: u32)
   \<and> unat (fuse_read_in.size_v (read_in (read_request 0x100000000 0 4))) \<le> MAX_READ
   \<and> handle_fuse_request android_lp64 ten_bytes (session first_open)
         (read_request 0x100000000 0 4) =
       Some \<lparr>continue = True,
             written = Some \<lparr>hdr = \<lparr>fuse_out_header.len = 20, error = 0,
                                    fuse_out_header.unique = 4\<rparr>,
                             vec0_len = 16, vec1_base = Bytes (replicate 4 0x41),
                             vec1_len = 4, iovcnt = 2\<rparr>,
             session = session first_open,
             calls = [GetFileSize 5, GetObjectBytes 5 0 4]\<rparr>
   \<and> (0 :: cint) \<noteq> - EBADF
   \<and> handle_fuse_request android_lp64 ten_bytes (session first_open)
         (release_request 0x100000000) =
       Some \<lparr>continue = True,
             written = Some \<lparr>hdr = \<lparr>fuse_out_header.len = 16, error = 0,
                                    fuse_out_header.unique = 5\<rparr>,
                             vec0_len = 16, vec1_base = Unwritten,
                             vec1_len = 0, iovcnt = 1\<rparr>,
             session = \<lparr>handles = Map.empty, handle_counter = 1\<rparr>,
             calls = []\<rparr>"
proof -
  have low: "(4294967296 :: u32) = 0" by simp
  show ?thesis
    by (simp add: handle_fuse_request_def read_request_def release_request_def request_def
          opcode_defs Let_def replied_def invoke_handler_simp handle_fuse_read_def
          handle_fuse_release_def new_response_def get_object_bytes_def
          get_file_size_def fuse_reply_def android_lp64_def first_open_def ten_bytes_def
          MAX_READ_def EBADF_def low)
qed

text \<open>
  What READ does for every \<open>fh\<close>. A READ of more than 128 KiB is answered
  invalid-argument. Otherwise the table is searched with the low 32 bits of \<open>fh\<close>,
  and when they are not a live token the READ is answered bad-file-descriptor; in both
  cases the provider is not called. After a RELEASE of \<open>fh\<close>, through any further run
  of the loop in which no reply is an OPEN reply carrying that token again, a READ with
  the same \<open>fh\<close> (and a size within the limit) is answered bad-file-descriptor.
\<close>

lemma read_rejects_by_key:
  "opcode (header rd) = FUSE_READ \<Longrightarrow>
   (MAX_READ < unat (fuse_read_in.size_v (read_in rd)) \<longrightarrow>
      (\<exists>w. handle_fuse_request K P s rd =
              Some \<lparr>continue = True, written = Some w, session = s, calls = []\<rparr>
         \<and> error (hdr w) = - EINVAL))
   \<and> (unat (fuse_read_in.size_v (read_in rd)) \<le> MAX_READ
        \<and> handles s (ucast (fuse_read_in.fh (read_in rd))) = None \<longrightarrow>
      (\<exists>w. handle_fuse_request K P s rd =
              Some \<lparr>continue = True, written = Some w, session = s, calls = []\<rparr>
         \<and> error (hdr w) = - EBADF))
   \<and> (unat (fuse_read_in.size_v (read_in rd)) \<le> MAX_READ
        \<and> opcode (header rel) = FUSE_RELEASE
        \<and> fuse_release_in.fh (release_in rel) = fuse_read_in.fh (read_in rd)
        \<and> handle_fuse_request K P0 s0 rel = Some d0
        \<and> fuse_loop K (session d0) reads = Some run
        \<and> OpenOut \<lparr>fuse_open_out.fh = ucast (ucast (fuse_read_in.fh (read_in rd)) :: u32)\<rparr>
             \<notin> vec1_base ` set (replies run) \<longrightarrow>
      (\<exists>w. handle_fuse_request K P (final run) rd =
              Some \<lparr>continue = True, written = Some w, session = final run, calls = []\<rparr>
         \<and> error (hdr w) = - EBADF))"
proof (intro conjI impI)
  assume op: "opcode (header rd) = FUSE_READ"
  assume "MAX_READ < unat (fuse_read_in.size_v (read_in rd))"
  from request_READ_rejected_size [OF op this, of K P s]
  show "\<exists>w. handle_fuse_request K P s rd =
              Some \<lparr>continue = True, written = Some w, session = s, calls = []\<rparr>
         \<and> error (hdr w) = - EINVAL"
    by simp
next
  assume op: "opcode (header rd) = FUSE_READ"
  assume "unat (fuse_read_in.size_v (read_in rd)) \<le> MAX_READ
        \<and> handles s (ucast (fuse_read_in.fh (read_in rd))) = None"
  then have "unat (fuse_read_in.size_v (read_in rd)) \<le> MAX_READ"
    "handles s (ucast (fuse_read_in.fh (read_in rd))) = None" by simp_all
  from request_READ_rejected_handle [OF op this, of K P]
  show "\<exists>w. handle_fuse_request K P s rd =
              Some \<lparr>continue = True, written = Some w, session = s, calls = []\<rparr>
         \<and> error (hdr w) = - EBADF"
    by simp
next
  assume op: "opcode (header rd) = FUSE_READ"
  assume a: "unat (fuse_read_in.size_v (read_in rd)) \<le> MAX_READ
        \<and> opcode (header rel) = FUSE_RELEASE
        \<and> fuse_release_in.fh (release_in rel) = fuse_read_in.fh (read_in rd)
        \<and> handle_fuse_request K P0 s0 rel = Some d0
        \<and> fuse_loop K (session d0) reads = Some run
        \<and> OpenOut \<lparr>fuse_open_out.fh = ucast (ucast (fuse_read_in.fh (read_in rd)) :: u32)\<rparr>
             \<notin> vec1_base ` set (replies run)"
  let ?k = "ucast (fuse_read_in.fh (read_in rd)) :: u32"
  from a have rel: "opcode (header rel) = FUSE_RELEASE" by simp
  from request_RELEASE [OF rel, of K P0 s0] a have "handles (session d0) ?k = None"
    by auto
  with a have "handles (final run) ?k = None"
    using fuse_loop_keeps_absent [of K "session d0" reads run ?k] by simp
  with a have "unat (fuse_read_in.size_v (read_in rd)) \<le> MAX_READ"
    "handles (final run) (ucast (fuse_read_in.fh (read_in rd))) = None" by simp_all
  from request_READ_rejected_handle [OF op this, of K P]
  show "\<exists>w. handle_fuse_request K P (final run) rd =
              Some \<lparr>continue = True, written = Some w, session = final run, calls = []\<rparr>
         \<and> error (hdr w) = - EBADF"
    by simp
qed

text \<open>
  For an \<open>fh\<close> that is a token (the zero-extension of a 32-bit value, which is all OPEN
  ever returns), a READ within the size limit is answered bad-file-descriptor whenever
  that token is not live.
\<close>

lemma read_rejects_for_tokens:
  assumes "opcode (header rd) = FUSE_READ"
    and "unat (fuse_read_in.size_v (read_in rd)) \<le> MAX_READ"
    and "fuse_read_in.fh (read_in rd) = ucast t" "handles s t = None"
  shows "handle_fuse_request K P s rd =
           Some \<lparr>continue = True,
                 written = Some (fuse_reply K (ucast (fuse_in_header.unique (header rd)))
                                   (- EBADF) Unwritten 0),
                 session = s, calls = []\<rparr>"
proof -
  from assms(3,4) have "handles s (ucast (fuse_read_in.fh (read_in rd))) = None"
    by (simp add: token_narrow)
  from request_READ_rejected_handle [OF assms(1,2) this] show ?thesis .
qed

end
